theory Spec2Isabelle
  imports Complex_Main "HOL-Library.Extended_Nat"
begin

section \<open>JavaScript numbers\<close>

text \<open>
  The grid layer computes with JavaScript numbers, which are IEEE doubles. A finite
  number is a real. Two parts of IEEE arithmetic are modelled.

  The first is what changes the control flow of the layer: a division by zero does not
  raise, it yields an infinity or NaN, and every comparison with NaN is false. Inputs
  that come from outside (bounds, coordinates, sizes) are finite and have type \<open>real\<close>
  or \<open>nat\<close>; a value the layer computes with a division has type \<open>jsnum\<close>. The sign
  of zero is not modelled: every zero divisor that arises below is a non-negative zero.

  The second is rounding, in the window of a source. There a rounded pixel size is
  divided into a rounded coordinate and the quotient is floored or ceiled into an index,
  so the last bit of a result decides the index at ordinary sizes (a full size of 18, a
  level of 14 and a left edge of 9 give the index 6 in doubles and 7 over the reals).
  Every arithmetic operation of \<open>computeWindowForSource\<close> therefore passes its exact
  result through a rounding function \<open>fl\<close>, which is a parameter of the model. What is
  proved holds for every rounding function, round-to-nearest included, unless a
  hypothesis names the values on which it has to be exact. Overflow is not modelled: the
  rounding of a finite result is finite. \<open>Math.floor\<close>, \<open>Math.ceil\<close>, \<open>Math.max\<close>,
  \<open>Math.min\<close> and the comparisons are exact. Outside the window of a source the
  operations are taken as exact.
\<close>

type_synonym rounding = "real \<Rightarrow> real"

datatype jsnum = Fin real | PosInf | NegInf | NaN

definition js_div :: "real \<Rightarrow> real \<Rightarrow> jsnum" where
  "js_div a b =
     (if b \<noteq> 0 then Fin (a / b)
      else if a = 0 then NaN
      else if 0 < a then PosInf else NegInf)"

text \<open>The rounding of a computed number: an infinity and NaN stay as they are.\<close>

fun js_round :: "rounding \<Rightarrow> jsnum \<Rightarrow> jsnum" where
  "js_round fl (Fin x) = Fin (fl x)"
| "js_round fl n = n"

fun js_floor :: "jsnum \<Rightarrow> jsnum" where
  "js_floor (Fin x) = Fin (of_int \<lfloor>x\<rfloor>)"
| "js_floor n = n"

fun js_ceil :: "jsnum \<Rightarrow> jsnum" where
  "js_ceil (Fin x) = Fin (of_int \<lceil>x\<rceil>)"
| "js_ceil n = n"

fun js_max :: "jsnum \<Rightarrow> jsnum \<Rightarrow> jsnum" where
  "js_max NaN _ = NaN"
| "js_max _ NaN = NaN"
| "js_max PosInf _ = PosInf"
| "js_max _ PosInf = PosInf"
| "js_max NegInf n = n"
| "js_max n NegInf = n"
| "js_max (Fin x) (Fin y) = Fin (max x y)"

fun js_min :: "jsnum \<Rightarrow> jsnum \<Rightarrow> jsnum" where
  "js_min NaN _ = NaN"
| "js_min _ NaN = NaN"
| "js_min NegInf _ = NegInf"
| "js_min _ NegInf = NegInf"
| "js_min PosInf n = n"
| "js_min n PosInf = n"
| "js_min (Fin x) (Fin y) = Fin (min x y)"

fun js_add :: "jsnum \<Rightarrow> jsnum \<Rightarrow> jsnum" where
  "js_add NaN _ = NaN"
| "js_add _ NaN = NaN"
| "js_add PosInf NegInf = NaN"
| "js_add NegInf PosInf = NaN"
| "js_add PosInf _ = PosInf"
| "js_add _ PosInf = PosInf"
| "js_add NegInf _ = NegInf"
| "js_add _ NegInf = NegInf"
| "js_add (Fin x) (Fin y) = Fin (x + y)"

text \<open>Product of a computed number and a finite one.\<close>

fun js_mul :: "jsnum \<Rightarrow> real \<Rightarrow> jsnum" where
  "js_mul NaN _ = NaN"
| "js_mul (Fin x) y = Fin (x * y)"
| "js_mul PosInf y = (if y = 0 then NaN else if 0 < y then PosInf else NegInf)"
| "js_mul NegInf y = (if y = 0 then NaN else if 0 < y then NegInf else PosInf)"

text \<open>Strict equality \<open>===\<close> and the comparisons \<open><\<close> and \<open>>=\<close> on numbers.\<close>

fun js_eq :: "jsnum \<Rightarrow> jsnum \<Rightarrow> bool" where
  "js_eq NaN _ = False"
| "js_eq _ NaN = False"
| "js_eq a b = (a = b)"

fun js_lt :: "jsnum \<Rightarrow> jsnum \<Rightarrow> bool" where
  "js_lt NaN _ = False"
| "js_lt _ NaN = False"
| "js_lt PosInf _ = False"
| "js_lt _ NegInf = False"
| "js_lt NegInf _ = True"
| "js_lt _ PosInf = True"
| "js_lt (Fin x) (Fin y) = (x < y)"

fun js_ge :: "jsnum \<Rightarrow> jsnum \<Rightarrow> bool" where
  "js_ge NaN _ = False"
| "js_ge _ NaN = False"
| "js_ge PosInf _ = True"
| "js_ge _ NegInf = True"
| "js_ge NegInf _ = False"
| "js_ge _ PosInf = False"
| "js_ge (Fin x) (Fin y) = (x \<ge> y)"

section \<open>Geometry\<close>

record 'n Bounds =
  left :: 'n
  right :: 'n
  top_edge :: 'n
  bottom :: 'n

type_synonym CellBounds = "real Bounds"

record Dimensions =
  width :: nat
  height :: nat

text \<open>The function \<open>clamp\<close> of the source.\<close>

definition clamp :: "real \<Rightarrow> real \<Rightarrow> real \<Rightarrow> real" where
  "clamp v lo hi = (if v < lo then lo else if v > hi then hi else v)"

text \<open>A window of index ranges: \<open>x = [xStart, xEnd]\<close>, \<open>y = [yStart, yEnd]\<close>.\<close>

record Window =
  win_x :: "jsnum \<times> jsnum"
  win_y :: "jsnum \<times> jsnum"

record WindowResult =
  window :: "Window option"
  renderBounds :: "jsnum Bounds"
  coversWholeCell :: bool

definition finBounds :: "CellBounds \<Rightarrow> jsnum Bounds" where
  "finBounds b =
     \<lparr>left = Fin (left b), right = Fin (right b),
      top_edge = Fin (top_edge b), bottom = Fin (bottom b)\<rparr>"

text \<open>
  Lines 193 to 204 of \<open>computeWindowForSource\<close>: the index ranges
  \<open>(xStart, xEnd, yStart, yEnd)\<close>, computed once the level size is known to be non-zero.
\<close>

definition windowRanges ::
  "rounding \<Rightarrow> CellBounds \<Rightarrow> CellBounds \<Rightarrow> Dimensions \<Rightarrow> Dimensions
     \<Rightarrow> jsnum \<times> jsnum \<times> jsnum \<times> jsnum" where
  "windowRanges fl viewportBounds cellBounds fullSize levelSize =
     (let levelWidth = real (width levelSize);
          levelHeight = real (height levelSize);
          pixelSizeX = fl (real (width fullSize) / levelWidth);
          pixelSizeY = fl (real (height fullSize) / levelHeight);
          localLeft = clamp (fl (left viewportBounds - left cellBounds)) 0 (real (width fullSize));
          localRight = clamp (fl (right viewportBounds - left cellBounds)) 0 (real (width fullSize));
          localTop = clamp (fl (top_edge viewportBounds - top_edge cellBounds)) 0
                       (real (height fullSize));
          localBottom = clamp (fl (bottom viewportBounds - top_edge cellBounds)) 0
                          (real (height fullSize));
          xStart = js_max (Fin 0) (js_floor (js_round fl (js_div localLeft pixelSizeX)));
          xEnd = js_min (Fin levelWidth)
                   (js_max (js_round fl (js_add xStart (Fin 1)))
                      (js_ceil (js_round fl (js_div localRight pixelSizeX))));
          yStart = js_max (Fin 0) (js_floor (js_round fl (js_div localTop pixelSizeY)));
          yEnd = js_min (Fin levelHeight)
                   (js_max (js_round fl (js_add yStart (Fin 1)))
                      (js_ceil (js_round fl (js_div localBottom pixelSizeY))))
      in (xStart, xEnd, yStart, yEnd))"

definition computeWindowForSource ::
  "rounding \<Rightarrow> CellBounds \<Rightarrow> CellBounds \<Rightarrow> Dimensions \<Rightarrow> Dimensions \<Rightarrow> WindowResult" where
  "computeWindowForSource fl viewportBounds cellBounds fullSize levelSize =
     (if width levelSize = 0 \<or> height levelSize = 0
      then \<lparr>window = None, renderBounds = finBounds cellBounds, coversWholeCell = True\<rparr>
      else
        (case windowRanges fl viewportBounds cellBounds fullSize levelSize of
           (xStart, xEnd, yStart, yEnd) \<Rightarrow>
             let pixelSizeX = fl (real (width fullSize) / real (width levelSize));
                 pixelSizeY = fl (real (height fullSize) / real (height levelSize));
                 covers = (js_eq xStart (Fin 0) \<and> js_eq xEnd (Fin (real (width levelSize)))
                           \<and> js_eq yStart (Fin 0) \<and> js_eq yEnd (Fin (real (height levelSize))))
             in \<lparr>window =
                    (if covers then None
                     else Some \<lparr>win_x = (xStart, xEnd), win_y = (yStart, yEnd)\<rparr>),
                 renderBounds =
                    (if covers then finBounds cellBounds
                     else \<lparr>left = js_round fl (js_add (Fin (left cellBounds))
                                     (js_round fl (js_mul xStart pixelSizeX))),
                           right = js_round fl (js_add (Fin (left cellBounds))
                                     (js_round fl (js_mul xEnd pixelSizeX))),
                           top_edge = js_round fl (js_add (Fin (top_edge cellBounds))
                                     (js_round fl (js_mul yStart pixelSizeY))),
                           bottom = js_round fl (js_add (Fin (top_edge cellBounds))
                                     (js_round fl (js_mul yEnd pixelSizeY)))\<rparr>),
                 coversWholeCell = covers\<rparr>))"

section \<open>Pixel sources and grid loaders\<close>

text \<open>
  A pixel source is external. The layer reads its axis labels and shape, and fetches
  tiles with \<open>getRaster\<close>, which is a parameter of the model.
\<close>

record ZarrPixelSource =
  labels :: "string list"
  shape :: "nat list"
  dtype :: string

record GridLoader =
  sources :: "ZarrPixelSource list"
  row :: nat
  col :: nat
  name :: string

datatype error =
    AssertionError string
  | TypeError
  | UndefinedExtent
  | FetchError

text \<open>\<open>Array.prototype.indexOf\<close>; \<open>None\<close> is the result \<open>-1\<close>.\<close>

fun indexOf :: "'a list \<Rightarrow> 'a \<Rightarrow> nat option" where
  "indexOf [] v = None"
| "indexOf (x # xs) v = (if x = v then Some 0 else map_option Suc (indexOf xs v))"

text \<open>
  \<open>getSourceDimensions\<close>. Where the shape is shorter than the labels, the source
  reads \<open>undefined\<close> and goes on with it; the model stops there with
  \<open>UndefinedExtent\<close>, which is not a value the layer computes with.
\<close>

definition getSourceDimensions :: "ZarrPixelSource \<Rightarrow> error + Dimensions" where
  "getSourceDimensions source =
     (case (indexOf (labels source) ''x'', indexOf (labels source) ''y'') of
        (Some xIndex, Some yIndex) \<Rightarrow>
          if xIndex < length (shape source) \<and> yIndex < length (shape source)
          then Inr \<lparr>width = shape source ! xIndex, height = shape source ! yIndex\<rparr>
          else Inl UndefinedExtent
      | _ \<Rightarrow> Inl (AssertionError ''Expected pixel source with x/y axes''))"

definition getCellBounds :: "GridLoader \<Rightarrow> nat \<Rightarrow> nat \<Rightarrow> real \<Rightarrow> CellBounds" where
  "getCellBounds loader w h spacer =
     (let l = real (col loader) * (real w + spacer);
          t = real (row loader) * (real h + spacer);
          r = l + real w;
          b = t + real h
      in \<lparr>left = l, right = r, top_edge = t, bottom = b\<rparr>)"

definition toDeckBounds :: "'n Bounds \<Rightarrow> 'n \<times> 'n \<times> 'n \<times> 'n" where
  "toDeckBounds bounds = (left bounds, bottom bounds, right bounds, top_edge bounds)"

definition intersectBounds :: "CellBounds \<Rightarrow> CellBounds \<Rightarrow> CellBounds option" where
  "intersectBounds a b =
     (let l = max (left a) (left b);
          r = min (right a) (right b);
          t = max (top_edge a) (top_edge b);
          bt = min (bottom a) (bottom b)
      in if r \<le> l \<or> bt \<le> t then None
         else Some \<lparr>left = l, right = r, top_edge = t, bottom = bt\<rparr>)"

section \<open>Viewport and model matrix\<close>

type_synonym point = "real \<times> real \<times> real"

record Viewport =
  vp_width :: real
  vp_height :: real
  unproject :: "point \<Rightarrow> point"
  project :: "point \<Rightarrow> point"

text \<open>
  The model matrix is external as well: \<open>transformAsPoint\<close> is its action on a point,
  \<open>invert\<close> the action of its inverse, \<open>None\<close> where inverting raises.
\<close>

record Matrix4 =
  transformAsPoint :: "point \<Rightarrow> point"
  invert :: "(point \<Rightarrow> point) option"

definition getViewportBounds :: "Viewport \<Rightarrow> Matrix4 option \<Rightarrow> CellBounds" where
  "getViewportBounds viewport modelMatrix =
     (let inverted = (case modelMatrix of None \<Rightarrow> None | Some m \<Rightarrow> invert m);
          corners = [unproject viewport (0, 0, 0),
                     unproject viewport (vp_width viewport, 0, 0),
                     unproject viewport (vp_width viewport, vp_height viewport, 0),
                     unproject viewport (0, vp_height viewport, 0)];
          transformed = (case inverted of None \<Rightarrow> corners | Some f \<Rightarrow> map f corners);
          xs = map fst transformed;
          ys = map (\<lambda>p. fst (snd p)) transformed
      in \<lparr>left = fold min (tl xs) (hd xs), right = fold max (tl xs) (hd xs),
          top_edge = fold min (tl ys) (hd ys), bottom = fold max (tl ys) (hd ys)\<rparr>)"

section \<open>Grid context\<close>

record VisibleGridCell =
  vc_loader :: GridLoader
  vc_cellBounds :: CellBounds
  vc_viewportBounds :: CellBounds

record GridContext =
  ctx_fullSize :: Dimensions
  ctx_spacer :: real
  ctx_visibleCells :: "VisibleGridCell list"

definition getAllGridCells :: "GridLoader list \<Rightarrow> Dimensions \<Rightarrow> real \<Rightarrow> VisibleGridCell list" where
  "getAllGridCells loaders cellSize spacer =
     (if width cellSize = 0 \<or> height cellSize = 0 then []
      else map (\<lambda>loader.
                 let cb = getCellBounds loader (width cellSize) (height cellSize) spacer
                 in \<lparr>vc_loader = loader, vc_cellBounds = cb, vc_viewportBounds = cb\<rparr>)
             (filter (\<lambda>loader. length (sources loader) > 0) loaders))"

text \<open>The loop of \<open>getVisibleGridCells\<close> over the loaders.\<close>

fun visibleLoop :: "CellBounds \<Rightarrow> Dimensions \<Rightarrow> real \<Rightarrow> GridLoader list \<Rightarrow> VisibleGridCell list" where
  "visibleLoop vb cellSize spacer [] = []"
| "visibleLoop vb cellSize spacer (loader # rest) =
     (if length (sources loader) = 0 then visibleLoop vb cellSize spacer rest
      else
        let cb = getCellBounds loader (width cellSize) (height cellSize) spacer
        in (case intersectBounds cb vb of
              Some intersection \<Rightarrow>
                \<lparr>vc_loader = loader, vc_cellBounds = cb, vc_viewportBounds = intersection\<rparr>
                # visibleLoop vb cellSize spacer rest
            | None \<Rightarrow> visibleLoop vb cellSize spacer rest))"

definition getVisibleGridCells ::
  "GridLoader list \<Rightarrow> Viewport \<Rightarrow> Dimensions \<Rightarrow> real \<Rightarrow> Matrix4 option \<Rightarrow> VisibleGridCell list" where
  "getVisibleGridCells loaders viewport cellSize spacer modelMatrix =
     (if width cellSize = 0 \<or> height cellSize = 0 then []
      else visibleLoop (getViewportBounds viewport modelMatrix) cellSize spacer loaders)"

text \<open>The properties of the layer that the functions below read.\<close>

record GridLayerProps =
  loaders :: "GridLoader list"
  rows :: nat
  columns :: nat
  rowLabels :: "string list option"
  columnLabels :: "string list option"
  spacer :: "real option"
  concurrency :: "real option"
  selections :: "nat list list option"
  modelMatrix :: "Matrix4 option"

text \<open>
  \<open>buildGridContext\<close>: \<open>Inr None\<close> is the result \<open>null\<close>, \<open>Inl\<close> an exception
  raised by \<open>getSourceDimensions\<close>.
\<close>

definition buildGridContext :: "GridLayerProps \<Rightarrow> Viewport option \<Rightarrow> error + GridContext option" where
  "buildGridContext props viewport =
     (let sp = (case spacer props of None \<Rightarrow> 0 | Some s \<Rightarrow> s)
      in if length (loaders props) = 0 then Inr None
         else
           (case find (\<lambda>loader. length (sources loader) > 0) (loaders props) of
              None \<Rightarrow> Inr None
            | Some baseLoader \<Rightarrow>
                (case getSourceDimensions (sources baseLoader ! 0) of
                   Inl e \<Rightarrow> Inl e
                 | Inr fullSize \<Rightarrow>
                     if width fullSize = 0 \<or> height fullSize = 0 then Inr None
                     else
                       let cells =
                             (case viewport of
                                Some v \<Rightarrow>
                                  getVisibleGridCells (loaders props) v fullSize sp (modelMatrix props)
                              | None \<Rightarrow> getAllGridCells (loaders props) fullSize sp)
                       in Inr (Some \<lparr>ctx_fullSize = fullSize, ctx_spacer = sp,
                                     ctx_visibleCells = cells\<rparr>))))"

section \<open>Concurrent tile loader\<close>

definition getEffectiveConcurrency :: "real option \<Rightarrow> nat \<Rightarrow> jsnum option" where
  "getEffectiveConcurrency conc selectionCount =
     (case conc of
        None \<Rightarrow> None
      | Some c \<Rightarrow>
          if c = 0 then None
          else if selectionCount \<le> 0 then Some (Fin c)
          else Some (js_max (Fin 1) (js_ceil (js_div c (real selectionCount)))))"

type_synonym buffer = "nat list"

record Tile =
  tile_data :: buffer
  tile_width :: nat
  tile_height :: nat

record TileData =
  td_data :: "buffer list"
  td_width :: nat
  td_height :: nat

record GridDataEntry =
  e_loader :: GridLoader
  e_bounds :: "jsnum \<times> jsnum \<times> jsnum \<times> jsnum"
  e_coversWholeCell :: bool
  e_source :: ZarrPixelSource
  e_sourceIndex :: nat
  e_data :: TileData

text \<open>
  The fetch of a tile: the source, the selection and the optional window give a tile or
  fail. It is external and a parameter of the loader.
\<close>

type_synonym raster = "ZarrPixelSource \<Rightarrow> nat list \<Rightarrow> Window option \<Rightarrow> error + Tile"

text \<open>
  \<open>Promise.all\<close> over a list of settled results: all the values in order, or a failure
  if one of them failed.
\<close>

fun promiseAll :: "(error + 'a) list \<Rightarrow> error + 'a list" where
  "promiseAll [] = Inr []"
| "promiseAll (Inl e # rest) = Inl e"
| "promiseAll (Inr v # rest) =
     (case promiseAll rest of Inl e \<Rightarrow> Inl e | Inr vs \<Rightarrow> Inr (v # vs))"

definition loadVisibleCell ::
  "rounding \<Rightarrow> raster \<Rightarrow> VisibleGridCell \<Rightarrow> nat \<Rightarrow> nat list list \<Rightarrow> GridContext
     \<Rightarrow> error + GridDataEntry" where
  "loadVisibleCell fl getRaster cell level sels context =
     (let loader = vc_loader cell
      in if \<not> length (sources loader) > 0
         then Inl (AssertionError ''Grid loader is missing pixel sources'')
         else
           let sourceIndex = min level (length (sources loader) - 1);
               source = sources loader ! sourceIndex
           in (case getSourceDimensions source of
                 Inl e \<Rightarrow> Inl e
               | Inr levelSize \<Rightarrow>
                   let res = computeWindowForSource fl (vc_viewportBounds cell)
                               (vc_cellBounds cell) (ctx_fullSize context) levelSize
                   in (case promiseAll (map (\<lambda>selection. getRaster source selection (window res)) sels) of
                         Inl e \<Rightarrow> Inl e
                       | Inr tiles \<Rightarrow>
                           let firstTile = (case tiles of [] \<Rightarrow> None | t # _ \<Rightarrow> Some t);
                               w = (case firstTile of None \<Rightarrow> 0 | Some t \<Rightarrow> tile_width t);
                               h = (case firstTile of None \<Rightarrow> 0 | Some t \<Rightarrow> tile_height t)
                           in Inr \<lparr>e_loader = loader,
                                   e_bounds = toDeckBounds (renderBounds res),
                                   e_coversWholeCell = coversWholeCell res,
                                   e_source = source,
                                   e_sourceIndex = sourceIndex,
                                   e_data = \<lparr>td_data = map tile_data tiles,
                                             td_width = w, td_height = h\<rparr>\<rparr>)))"

text \<open>
  The external \<open>pMap\<close>, by its contract. Its \<open>concurrency\<close> option is
  \<open>Infinity\<close> when it is undefined, and has to be \<open>Infinity\<close> or a safe integer from 1
  up: otherwise the promise is rejected with a \<open>TypeError\<close> and no mapper runs. With a
  valid option the mappers run over the elements with never more in flight at once than
  the option allows; the promise resolves to the results in the order of the input, or
  is rejected if a mapper fails. A run of \<open>pMap\<close> is recorded by the option as
  \<open>pMap\<close> reads it (\<open>pm_concurrency\<close>), the most mappers it may have in flight at
  once (\<open>pm_inFlightBound\<close>) and what its promise settles to (\<open>pm_settled\<close>).
\<close>

record 'b PMapRun =
  pm_concurrency :: jsnum
  pm_inFlightBound :: nat
  pm_settled :: "error + 'b list"

definition validConcurrency :: "jsnum \<Rightarrow> bool" where
  "validConcurrency c =
     (case c of
        PosInf \<Rightarrow> True
      | Fin k \<Rightarrow> k = of_int \<lfloor>k\<rfloor> \<and> 1 \<le> k \<and> k \<le> 9007199254740991
      | _ \<Rightarrow> False)"

definition pMap :: "jsnum option \<Rightarrow> ('a \<Rightarrow> error + 'b) \<Rightarrow> 'a list \<Rightarrow> 'b PMapRun" where
  "pMap conc mapper xs =
     (let c = (case conc of None \<Rightarrow> PosInf | Some v \<Rightarrow> v)
      in if \<not> validConcurrency c
         then \<lparr>pm_concurrency = c, pm_inFlightBound = 0, pm_settled = Inl TypeError\<rparr>
         else \<lparr>pm_concurrency = c,
               pm_inFlightBound =
                 (case c of Fin k \<Rightarrow> min (nat \<lfloor>k\<rfloor>) (length xs) | _ \<Rightarrow> length xs),
               pm_settled = promiseAll (map mapper xs)\<rparr>)"

text \<open>
  What \<open>refreshGridData\<close> returns: a promise that is already resolved, or the run of
  the fan-out over the visible cells.
\<close>

datatype 'b batch = Resolved "'b list" | FanOut "'b PMapRun"

text \<open>The value or failure that the promise settles to.\<close>

fun awaitBatch :: "'b batch \<Rightarrow> error + 'b list" where
  "awaitBatch (Resolved vs) = Inr vs"
| "awaitBatch (FanOut run) = pm_settled run"

definition refreshGridData ::
  "rounding \<Rightarrow> raster \<Rightarrow> GridContext \<Rightarrow> nat \<Rightarrow> nat list list \<Rightarrow> real option
     \<Rightarrow> GridDataEntry batch" where
  "refreshGridData fl getRaster context level sels conc =
     (if length (ctx_visibleCells context) = 0 then Resolved []
      else
        let effectiveConcurrency = getEffectiveConcurrency conc (length sels)
        in FanOut (pMap effectiveConcurrency
                     (\<lambda>cell. loadVisibleCell fl getRaster cell level sels context)
                     (ctx_visibleCells context)))"

text \<open>
  \<open>validateWidthHeight\<close>: the loop asserts that every entry has the width and height
  of the first. The data of an entry is never absent, so the loop skips none.
\<close>

fun validateLoop :: "nat \<Rightarrow> nat \<Rightarrow> GridDataEntry list \<Rightarrow> error + unit" where
  "validateLoop w h [] = Inr ()"
| "validateLoop w h (entry # rest) =
     (if td_width (e_data entry) = w \<and> td_height (e_data entry) = h
      then validateLoop w h rest
      else Inl (AssertionError ''Grid data is not same shape.''))"

definition validateWidthHeight :: "GridDataEntry list \<Rightarrow> error + nat \<times> nat" where
  "validateWidthHeight entries =
     (case entries of
        [] \<Rightarrow> Inl TypeError
      | first # _ \<Rightarrow>
          let w = td_width (e_data first); h = td_height (e_data first)
          in (case validateLoop w h entries of
                Inl e \<Rightarrow> Inl e
              | Inr _ \<Rightarrow> Inr (w, h)))"

section \<open>Shared layer state and the completion of a fetch batch\<close>

record SharedLayerState =
  gridData :: "GridDataEntry list"
  fullWidth :: nat
  fullHeight :: nat
  resolutionLevel :: nat

text \<open>
  The callback that \<open>#refreshAndSetState\<close> passes to \<open>then\<close>, run on the state the
  layer has when the batch resolves. \<open>Inl\<close> is an exception raised in the callback.
\<close>

definition onFulfilled ::
  "nat \<Rightarrow> GridContext \<Rightarrow> GridDataEntry list \<Rightarrow> SharedLayerState \<Rightarrow> error + SharedLayerState" where
  "onFulfilled level resolvedContext entries st =
     (if resolutionLevel st \<noteq> level then Inr st
      else
        (case (if length entries > 0 \<and> list_all e_coversWholeCell entries
               then validateWidthHeight entries else Inr (0, 0)) of
           Inl e \<Rightarrow> Inl e
         | Inr _ \<Rightarrow>
             Inr (st\<lparr>gridData := entries,
                     fullWidth := width (ctx_fullSize resolvedContext),
                     fullHeight := height (ctx_fullSize resolvedContext)\<rparr>)))"

text \<open>The callback passed to \<open>catch\<close>.\<close>

definition onRejected :: "nat \<Rightarrow> SharedLayerState \<Rightarrow> SharedLayerState" where
  "onRejected level st =
     (if resolutionLevel st \<noteq> level then st else st\<lparr>gridData := []\<rparr>)"

text \<open>
  The completion of a batch issued for \<open>level\<close>: the chain \<open>then(...).catch(...)\<close> on
  the settled result of \<open>refreshGridData\<close>. A failure of the batch and an exception of
  the first callback both reach the second.
\<close>

definition completeBatch ::
  "nat \<Rightarrow> GridContext \<Rightarrow> error + GridDataEntry list \<Rightarrow> SharedLayerState \<Rightarrow> SharedLayerState" where
  "completeBatch level resolvedContext outcome st =
     (case outcome of
        Inl e \<Rightarrow> onRejected level st
      | Inr entries \<Rightarrow>
          (case onFulfilled level resolvedContext entries st of
             Inl e \<Rightarrow> onRejected level st
           | Inr st' \<Rightarrow> st'))"

text \<open>
  Whether the completion raised an exception in its first callback (the assertion of
  \<open>validateWidthHeight\<close>), which the second callback then caught.
\<close>

definition completionRaised ::
  "nat \<Rightarrow> GridContext \<Rightarrow> error + GridDataEntry list \<Rightarrow> SharedLayerState \<Rightarrow> bool" where
  "completionRaised level resolvedContext outcome st =
     (case outcome of
        Inl e \<Rightarrow> False
      | Inr entries \<Rightarrow>
          (case onFulfilled level resolvedContext entries st of
             Inl e \<Rightarrow> True
           | Inr st' \<Rightarrow> False))"

text \<open>
  \<open>#refreshAndSetState\<close>, run on the state \<open>st\<close>. Without a context it empties the
  grid at once. With one it issues the batch and leaves the state alone: the second
  component is the completion that runs later, on the state the layer has by then.
  \<open>Inl\<close> is an exception raised while the context is built.
\<close>

definition refreshAndSetState ::
  "rounding \<Rightarrow> raster \<Rightarrow> GridLayerProps \<Rightarrow> nat \<Rightarrow> Viewport option \<Rightarrow> GridContext option
     \<Rightarrow> SharedLayerState
     \<Rightarrow> error + SharedLayerState \<times> (SharedLayerState \<Rightarrow> SharedLayerState) option" where
  "refreshAndSetState fl getRaster props level viewport context st =
     (case (case context of
              Some c \<Rightarrow> Inr (Some c)
            | None \<Rightarrow> buildGridContext props viewport) of
        Inl e \<Rightarrow> Inl e
      | Inr None \<Rightarrow> Inr (st\<lparr>gridData := []\<rparr>, None)
      | Inr (Some resolvedContext) \<Rightarrow>
          let sels = (case selections props of None \<Rightarrow> [] | Some s \<Rightarrow> s)
          in Inr (st, Some (completeBatch level resolvedContext
                              (awaitBatch (refreshGridData fl getRaster resolvedContext level sels
                                          (concurrency props))))))"

section \<open>Resolution-level selector\<close>

definition MIN_PIXELS_PER_DATA_PIXEL :: real where
  "MIN_PIXELS_PER_DATA_PIXEL = 1 / 2"

text \<open>
  \<open>#getMaxValidLevel\<close>: the fold starts from positive infinity, which is \<open>\<infinity>\<close> of the
  extended naturals. On \<open>nat\<close> the difference \<open>n - 1\<close> is \<open>0\<close> at \<open>n = 0\<close>, where the
  source computes \<open>max(0, -1) = 0\<close>.
\<close>

definition getMaxValidLevel :: "GridLoader list \<Rightarrow> nat" where
  "getMaxValidLevel lds =
     (if length lds = 0 then 0
      else
        let minSources = foldl (\<lambda>m loader. min m (enat (length (sources loader)))) \<infinity> lds
        in (case minSources of
              \<infinity> \<Rightarrow> 0
            | enat n \<Rightarrow> max 0 (n - 1)))"

fun mapDimensions :: "ZarrPixelSource list \<Rightarrow> error + Dimensions list" where
  "mapDimensions [] = Inr []"
| "mapDimensions (s # rest) =
     (case getSourceDimensions s of
        Inl e \<Rightarrow> Inl e
      | Inr d \<Rightarrow> (case mapDimensions rest of Inl e \<Rightarrow> Inl e | Inr ds \<Rightarrow> Inr (d # ds)))"

definition getLevelDimensions :: "GridLoader list \<Rightarrow> error + Dimensions list" where
  "getLevelDimensions lds =
     (case find (\<lambda>loader. length (sources loader) > 0) lds of
        None \<Rightarrow> Inr []
      | Some first \<Rightarrow> mapDimensions (sources first))"

definition applyModelMatrix :: "Matrix4 option \<Rightarrow> point \<Rightarrow> point" where
  "applyModelMatrix matrix p =
     (case matrix of None \<Rightarrow> p | Some m \<Rightarrow> transformAsPoint m p)"

definition getCellScreenSize ::
  "Matrix4 option \<Rightarrow> SharedLayerState \<Rightarrow> Viewport option \<Rightarrow> (real \<times> real) option" where
  "getCellScreenSize matrix st viewport =
     (case viewport of
        None \<Rightarrow> None
      | Some v \<Rightarrow>
          if fullWidth st = 0 \<or> fullHeight st = 0 then None
          else
            let topLeft = applyModelMatrix matrix (0, 0, 0);
                topRight = applyModelMatrix matrix (real (fullWidth st), 0, 0);
                bottomLeft = applyModelMatrix matrix (0, real (fullHeight st), 0);
                projectedTopLeft = project v topLeft;
                projectedTopRight = project v topRight;
                projectedBottomLeft = project v bottomLeft;
                w = \<bar>fst projectedTopRight - fst projectedTopLeft\<bar>;
                h = \<bar>fst (snd projectedBottomLeft) - fst (snd projectedTopLeft)\<bar>
            in Some (w, h))"

text \<open>
  The loop of \<open>#pickResolutionLevel\<close> from index \<open>level\<close> on: the first level that
  qualifies, or \<open>None\<close> when the loop runs to its end.
\<close>

fun pickLoop :: "real \<Rightarrow> real \<Rightarrow> Dimensions list \<Rightarrow> nat \<Rightarrow> nat option" where
  "pickLoop sw sh [] level = None"
| "pickLoop sw sh (d # rest) level =
     (if width d = 0 \<or> height d = 0 then pickLoop sw sh rest (level + 1)
      else
        let ratio = min (sw / real (width d)) (sh / real (height d))
        in if ratio \<ge> MIN_PIXELS_PER_DATA_PIXEL then Some level
           else pickLoop sw sh rest (level + 1))"

definition pickResolutionLevel ::
  "GridLayerProps \<Rightarrow> SharedLayerState \<Rightarrow> Viewport option \<Rightarrow> error + nat" where
  "pickResolutionLevel props st viewport =
     (let maxLevel = getMaxValidLevel (loaders props)
      in if maxLevel \<le> 0 then Inr 0
         else
           (case getLevelDimensions (loaders props) of
              Inl e \<Rightarrow> Inl e
            | Inr allDimensions \<Rightarrow>
                let dimensions = take (maxLevel + 1) allDimensions
                in if length dimensions \<le> 1 then Inr 0
                   else
                     (case getCellScreenSize (modelMatrix props) st viewport of
                        None \<Rightarrow> Inr (resolutionLevel st)
                      | Some (sw, sh) \<Rightarrow>
                          (case pickLoop sw sh dimensions 0 of
                             Some level \<Rightarrow> Inr level
                           | None \<Rightarrow> Inr (length dimensions - 1)))))"

section \<open>Picking\<close>

record PickingInfo =
  coordinate :: "(real \<times> real) option"
  gridCoord :: "(jsnum \<times> jsnum) option"
  gridLabels :: "(string option \<times> string option) option"

text \<open>
  The optional read \<open>labels?.[i]\<close> of a label array at a computed index: \<open>undefined\<close>
  (here \<open>None\<close>) without an array and at any index that is not one of its positions.
\<close>

definition labelAt :: "string list option \<Rightarrow> jsnum \<Rightarrow> string option" where
  "labelAt labs i =
     (case labs of
        None \<Rightarrow> None
      | Some xs \<Rightarrow>
          (case i of
             Fin r \<Rightarrow>
               if 0 \<le> r \<and> r = of_int \<lfloor>r\<rfloor> \<and> nat \<lfloor>r\<rfloor> < length xs
               then Some (xs ! nat \<lfloor>r\<rfloor>) else None
           | _ \<Rightarrow> None))"

definition getPickingInfo :: "GridLayerProps \<Rightarrow> SharedLayerState \<Rightarrow> PickingInfo \<Rightarrow> PickingInfo" where
  "getPickingInfo props st info =
     (case coordinate info of
        None \<Rightarrow> info
      | Some (x, y) \<Rightarrow>
          let sp = (case spacer props of None \<Rightarrow> 0 | Some s \<Rightarrow> s)
          in if fullWidth st = 0 \<or> fullHeight st = 0 then info
             else
               let r = js_floor (js_div y (real (fullHeight st) + sp));
                   c = js_floor (js_div x (real (fullWidth st) + sp))
               in if js_lt r (Fin 0) \<or> js_lt c (Fin 0)
                     \<or> js_ge r (Fin (real (rows props))) \<or> js_ge c (Fin (real (columns props)))
                  then info
                  else info\<lparr>gridCoord := Some (r, c),
                            gridLabels := Some (labelAt (rowLabels props) r,
                                                labelAt (columnLabels props) c)\<rparr>)"

section \<open>Vocabulary of the statements\<close>

text \<open>All the entries of a batch report the width and height of its first entry.\<close>

definition sameShape :: "GridDataEntry list \<Rightarrow> bool" where
  "sameShape es \<longleftrightarrow>
     (\<forall>e \<in> set es. td_width (e_data e) = td_width (e_data (hd es))
                  \<and> td_height (e_data e) = td_height (e_data (hd es)))"

section \<open>Example data\<close>

text \<open>Concrete sources, cells and entries, used where a statement is evaluated.\<close>

definition exSource :: "nat \<Rightarrow> nat \<Rightarrow> ZarrPixelSource" where
  "exSource w h = \<lparr>labels = [''c'', ''y'', ''x''], shape = [3, h, w], dtype = ''Uint16''\<rparr>"

definition exLoader :: "nat \<Rightarrow> nat \<Rightarrow> GridLoader" where
  "exLoader r c =
     \<lparr>sources = [exSource 1000 1000, exSource 500 500, exSource 250 250],
      row = r, col = c, name = ''well''\<rparr>"

definition exEmptyLoader :: "nat \<Rightarrow> nat \<Rightarrow> GridLoader" where
  "exEmptyLoader r c = \<lparr>sources = [], row = r, col = c, name = ''empty''\<rparr>"

definition exProps :: "GridLoader list \<Rightarrow> GridLayerProps" where
  "exProps lds =
     \<lparr>loaders = lds, rows = 2, columns = 2, rowLabels = Some [''A'', ''B''],
      columnLabels = Some [''1'', ''2''], spacer = Some 5, concurrency = Some 10,
      selections = Some [[0, 0, 0]], modelMatrix = None\<rparr>"

definition exCell :: VisibleGridCell where
  "exCell =
     \<lparr>vc_loader = exLoader 0 0,
      vc_cellBounds = \<lparr>left = 0, right = 1000, top_edge = 0, bottom = 1000\<rparr>,
      vc_viewportBounds = \<lparr>left = 0, right = 1000, top_edge = 0, bottom = 1000\<rparr>\<rparr>"

definition exContext :: GridContext where
  "exContext =
     \<lparr>ctx_fullSize = \<lparr>width = 1000, height = 1000\<rparr>, ctx_spacer = 5,
      ctx_visibleCells = [exCell]\<rparr>"

definition exEntry :: "bool \<Rightarrow> nat \<Rightarrow> nat \<Rightarrow> GridDataEntry" where
  "exEntry covers w h =
     \<lparr>e_loader = exLoader 0 0, e_bounds = (Fin 0, Fin 1000, Fin 1000, Fin 0),
      e_coversWholeCell = covers, e_source = exSource 500 500, e_sourceIndex = 1,
      e_data = \<lparr>td_data = [[]], td_width = w, td_height = h\<rparr>\<rparr>"

definition exState :: "nat \<Rightarrow> SharedLayerState" where
  "exState level =
     \<lparr>gridData = [exEntry True 250 250], fullWidth = 1000, fullHeight = 1000,
      resolutionLevel = level\<rparr>"

text \<open>A raster source: a tile of 8 by 8 without a window, of 4 by 4 with one.\<close>

definition exRaster :: raster where
  "exRaster source selection w =
     (case w of
        None \<Rightarrow> Inr \<lparr>tile_data = selection, tile_width = 8, tile_height = 8\<rparr>
      | Some _ \<Rightarrow> Inr \<lparr>tile_data = selection, tile_width = 4, tile_height = 4\<rparr>)"

text \<open>A viewport that scales the world by \<open>k\<close>.\<close>

definition exViewport :: "real \<Rightarrow> Viewport" where
  "exViewport k =
     \<lparr>vp_width = 800, vp_height = 600,
      unproject = (\<lambda>(x, y, z). (x / k, y / k, z)),
      project = (\<lambda>(x, y, z). (x * k, y * k, z))\<rparr>"

text \<open>A pick, and a layer with cells of a given size and a spacer of 10.\<close>

definition exPick :: "real \<Rightarrow> real \<Rightarrow> PickingInfo" where
  "exPick x y = \<lparr>coordinate = Some (x, y), gridCoord = None, gridLabels = None\<rparr>"

definition exPickProps :: GridLayerProps where
  "exPickProps = (exProps [exLoader 0 0])\<lparr>spacer := Some 10\<rparr>"

definition exPickState :: "nat \<Rightarrow> nat \<Rightarrow> SharedLayerState" where
  "exPickState w h = (exState 0)\<lparr>fullWidth := w, fullHeight := h\<rparr>"

text \<open>A context with five visible cells.\<close>

definition exWideContext :: GridContext where
  "exWideContext =
     \<lparr>ctx_fullSize = \<lparr>width = 1000, height = 1000\<rparr>, ctx_spacer = 5,
      ctx_visibleCells = [exCell, exCell, exCell, exCell, exCell]\<rparr>"

text \<open>A spacer that cancels a cell size of 100.\<close>

definition exCancelProps :: GridLayerProps where
  "exCancelProps = (exProps [exLoader 0 0])\<lparr>spacer := Some (- 100)\<rparr>"

section \<open>Facts about JavaScript numbers\<close>

lemma js_eq_Fin: "js_eq a (Fin c) \<longleftrightarrow> a = Fin c"
  by (cases a) auto

lemma clamp_nonneg: "0 \<le> hi \<Longrightarrow> 0 \<le> clamp v 0 hi"
  by (simp add: clamp_def)

section \<open>The window of a source\<close>

text \<open>
  C9. When the size of the pyramid level is degenerate (its width or its height is zero),
  \<open>computeWindowForSource\<close> returns at once: no window, \<open>coversWholeCell\<close> true and
  the render bounds equal to the cell bounds, all of them finite. The divisions by the
  level size are never reached and the function returns a value, not an error.
\<close>

theorem computeWindow_degenerate_level:
  "width levelSize = 0 \<or> height levelSize = 0 \<Longrightarrow>
   computeWindowForSource fl vb cb fs levelSize =
     \<lparr>window = None, renderBounds = finBounds cb, coversWholeCell = True\<rparr>"
  by (simp add: computeWindowForSource_def)

theorem computeWindow_degenerate_level_witness:
  "computeWindowForSource (\<lambda>v. v) \<lparr>left = 2, right = 6, top_edge = 0, bottom = 8\<rparr>
       \<lparr>left = 0, right = 8, top_edge = 0, bottom = 8\<rparr>
       \<lparr>width = 8, height = 8\<rparr> \<lparr>width = 0, height = 4\<rparr>
   = \<lparr>window = None,
      renderBounds = \<lparr>left = Fin 0, right = Fin 8, top_edge = Fin 0, bottom = Fin 8\<rparr>,
      coversWholeCell = True\<rparr>"
  using computeWindow_degenerate_level
          [of "\<lparr>width = 0, height = 4\<rparr>" "\<lambda>v. v"
              "\<lparr>left = 2, right = 6, top_edge = 0, bottom = 8\<rparr>"
              "\<lparr>left = 0, right = 8, top_edge = 0, bottom = 8\<rparr>"
              "\<lparr>width = 8, height = 8\<rparr>"]
  by (simp add: finBounds_def)

text \<open>
  The start index follows the rounding. With a full size of 18, a level of 14 and a left
  edge of 9 the exact quotient is 7; a pixel size that is rounded up gives a quotient
  below 7 and the index 6.
\<close>

lemma window_start_exact:
  "fst (windowRanges (\<lambda>v. v) \<lparr>left = 9, right = 18, top_edge = 0, bottom = 18\<rparr>
          \<lparr>left = 0, right = 18, top_edge = 0, bottom = 18\<rparr>
          \<lparr>width = 18, height = 18\<rparr> \<lparr>width = 14, height = 14\<rparr>) = Fin 7"
  by (simp add: windowRanges_def clamp_def js_div_def Let_def)

lemma window_start_follows_rounding:
  assumes "fl 9 = 9" and "fl (18 / 14) = p" and "p \<noteq> 0" and "fl (9 / p) = q"
    and "6 \<le> q" and "q < 7"
  shows "fst (windowRanges fl \<lparr>left = 9, right = 18, top_edge = 0, bottom = 18\<rparr>
                \<lparr>left = 0, right = 18, top_edge = 0, bottom = 18\<rparr>
                \<lparr>width = 18, height = 18\<rparr> \<lparr>width = 14, height = 14\<rparr>) = Fin 6"
proof -
  have q: "\<lfloor>q\<rfloor> = 6" using assms(5,6) by (simp add: floor_eq_iff)
  have c: "clamp 9 0 18 = 9" by (simp add: clamp_def)
  show ?thesis
    using assms(1-4) by (simp add: windowRanges_def js_div_def Let_def q c)
qed

text \<open>
  An axis of the window. If the start index is a finite number below the extent of the
  level, and the rounding is exact on the start index plus one, the end lies after it;
  if the start index has reached the extent, the end does not.
\<close>

lemma axis_nonempty_below_extent:
  assumes s: "js_max (Fin 0) (js_floor (js_round fl (js_div l p))) = Fin a"
    and l: "0 \<le> l"
    and a: "a < real (n::nat)"
    and ex: "fl (a + 1) = a + 1"
  shows "js_lt (Fin a)
           (js_min (Fin (real n))
              (js_max (js_round fl (js_add (Fin a) (Fin 1))) (js_ceil (js_round fl (js_div r p)))))"
proof -
  have p: "p \<noteq> 0"
  proof
    assume "p = 0"
    then have "js_div l p = NaN \<or> js_div l p = PosInf"
      using l by (auto simp: js_div_def)
    with s show False by auto
  qed
  have "a = max 0 (of_int \<lfloor>fl (l / p)\<rfloor>)"
    using s p by (simp add: js_div_def)
  then obtain k :: int where k: "a = of_int k"
    by (cases "0 \<le> (of_int \<lfloor>fl (l / p)\<rfloor> :: real)") (auto simp: max_def intro: that [of 0])
  from a k have "k < int n" by (metis of_int_less_iff of_int_of_nat_eq)
  then have kn: "of_int k + 1 \<le> real n"
    by (metis add.commute int_ops(2) of_int_1 of_int_add of_int_le_iff of_int_of_nat_eq
          zless_imp_add1_zle)
  have "js_min (Fin (real n))
          (js_max (js_round fl (js_add (Fin a) (Fin 1))) (js_ceil (js_round fl (js_div r p))))
        = Fin (min (real n) (max (a + 1) (of_int \<lceil>fl (r / p)\<rceil>)))"
    using p ex by (simp add: js_div_def)
  moreover have "a < min (real n) (max (a + 1) (of_int \<lceil>fl (r / p)\<rceil>))"
    using kn k by (simp add: min_def max_def)
  ultimately show ?thesis by simp
qed

lemma axis_empty_at_extent:
  assumes s: "js_max (Fin 0) (js_floor (js_round fl (js_div l p))) = Fin a"
    and l: "0 \<le> l"
    and a: "real (n::nat) \<le> a"
  shows "\<not> js_lt (Fin a)
           (js_min (Fin (real n))
              (js_max (js_round fl (js_add (Fin a) (Fin 1))) (js_ceil (js_round fl (js_div r p)))))"
proof -
  have p: "p \<noteq> 0"
  proof
    assume "p = 0"
    then have "js_div l p = NaN \<or> js_div l p = PosInf"
      using l by (auto simp: js_div_def)
    with s show False by auto
  qed
  define m where "m = min (real n) (max (fl (a + 1)) (of_int \<lceil>fl (r / p)\<rceil>))"
  have eq: "js_min (Fin (real n))
          (js_max (js_round fl (js_add (Fin a) (Fin 1))) (js_ceil (js_round fl (js_div r p))))
        = Fin m"
    using p by (simp add: js_div_def m_def)
  have "m \<le> a"
    using a by (simp add: m_def min_le_iff_disj)
  then show ?thesis unfolding eq by simp
qed

text \<open>
  So the window of a source is empty on an axis exactly when the start index has reached
  the extent of the level: the end is raised to the start plus one and then clamped to the
  extent. This holds for every rounding that is exact on the start index plus one.
\<close>

lemma window_nonempty_iff_below_extent:
  assumes r: "windowRanges fl vb cb fs ls = (Fin a, xe, Fin b, ye)"
    and exa: "fl (a + 1) = a + 1" and exb: "fl (b + 1) = b + 1"
  shows "(js_lt (Fin a) xe \<longleftrightarrow> a < real (width ls))
       \<and> (js_lt (Fin b) ye \<longleftrightarrow> b < real (height ls))"
proof -
  let ?px = "fl (real (width fs) / real (width ls))"
  let ?py = "fl (real (height fs) / real (height ls))"
  let ?ll = "clamp (fl (left vb - left cb)) 0 (real (width fs))"
  let ?lr = "clamp (fl (right vb - left cb)) 0 (real (width fs))"
  let ?lt = "clamp (fl (top_edge vb - top_edge cb)) 0 (real (height fs))"
  let ?lb = "clamp (fl (bottom vb - top_edge cb)) 0 (real (height fs))"
  from r have xs: "js_max (Fin 0) (js_floor (js_round fl (js_div ?ll ?px))) = Fin a"
    and ys: "js_max (Fin 0) (js_floor (js_round fl (js_div ?lt ?py))) = Fin b"
    by (simp_all add: windowRanges_def Let_def)
  from r xs have xe: "xe = js_min (Fin (real (width ls)))
                   (js_max (js_round fl (js_add (Fin a) (Fin 1)))
                      (js_ceil (js_round fl (js_div ?lr ?px))))"
    by (simp add: windowRanges_def Let_def)
  from r ys have ye: "ye = js_min (Fin (real (height ls)))
                   (js_max (js_round fl (js_add (Fin b) (Fin 1)))
                      (js_ceil (js_round fl (js_div ?lb ?py))))"
    by (simp add: windowRanges_def Let_def)
  have l: "0 \<le> ?ll" "0 \<le> ?lt" by (simp_all add: clamp_nonneg)
  have "js_lt (Fin a) xe" if "a < real (width ls)"
    unfolding xe by (rule axis_nonempty_below_extent [OF xs l(1) that exa])
  moreover have "\<not> js_lt (Fin a) xe" if "\<not> a < real (width ls)"
    unfolding xe by (rule axis_empty_at_extent [OF xs l(1)]) (use that in simp)
  moreover have "js_lt (Fin b) ye" if "b < real (height ls)"
    unfolding ye by (rule axis_nonempty_below_extent [OF ys l(2) that exb])
  moreover have "\<not> js_lt (Fin b) ye" if "\<not> b < real (height ls)"
    unfolding ye by (rule axis_empty_at_extent [OF ys l(2)]) (use that in simp)
  ultimately show ?thesis by blast
qed

text \<open>
  C2. With a positive level size the window is meant to be non-empty whatever the
  visible slice, and the end is raised to \<open>xStart + 1\<close> for it. The code misses the
  case of a start index at the extent of the level. For a slice that has degenerated to
  the right edge of its cell, with a full size of 8 by 8 and a level of 4 by 4, the start
  index is 4 and the end, clamped to \<open>levelWidth\<close> after it was raised, is 4 as well:
  the window returned is \<open>x = [4, 4]\<close>. Every operand and result at this input is a
  small integer, and the statement holds for every rounding that is exact on them.
\<close>

theorem window_empty_at_right_edge:
  assumes "fl 0 = 0" and "fl 1 = 1" and "fl 2 = 2" and "fl 4 = 4" and "fl 5 = 5"
    and "fl 8 = 8"
  shows "window (computeWindowForSource fl \<lparr>left = 8, right = 8, top_edge = 0, bottom = 8\<rparr>
             \<lparr>left = 0, right = 8, top_edge = 0, bottom = 8\<rparr>
             \<lparr>width = 8, height = 8\<rparr> \<lparr>width = 4, height = 4\<rparr>)
           = Some \<lparr>win_x = (Fin 4, Fin 4), win_y = (Fin 0, Fin 4)\<rparr>
       \<and> \<not> js_lt (Fin 4) (Fin 4)"
  using assms
  by (simp add: computeWindowForSource_def windowRanges_def clamp_def js_div_def Let_def)

theorem window_empty_at_right_edge_witness:
  "window (computeWindowForSource (\<lambda>v. v) \<lparr>left = 8, right = 8, top_edge = 0, bottom = 8\<rparr>
             \<lparr>left = 0, right = 8, top_edge = 0, bottom = 8\<rparr>
             \<lparr>width = 8, height = 8\<rparr> \<lparr>width = 4, height = 4\<rparr>)
     = Some \<lparr>win_x = (Fin 4, Fin 4), win_y = (Fin 0, Fin 4)\<rparr>"
  using window_empty_at_right_edge [of "\<lambda>v. v"] by simp

text \<open>
  C3. With a positive level size, \<open>coversWholeCell\<close> is true if and only if the
  computed ranges are \<open>[0, levelWidth]\<close> and \<open>[0, levelHeight]\<close>; otherwise the window
  returned holds the computed ranges. When it is true, no window is returned, the render
  bounds are the cell bounds, and \<open>loadVisibleCell\<close> fetches every tile without a
  window: its result is the one it has with a source that is never given a window.
\<close>

theorem coversWholeCell_iff_full_window:
  assumes "0 < width ls" and "0 < height ls"
  shows "(case windowRanges fl vb cb fs ls of
            (xStart, xEnd, yStart, yEnd) \<Rightarrow>
              (coversWholeCell (computeWindowForSource fl vb cb fs ls)
                 \<longleftrightarrow> xStart = Fin 0 \<and> xEnd = Fin (real (width ls))
                      \<and> yStart = Fin 0 \<and> yEnd = Fin (real (height ls)))
            \<and> (\<not> coversWholeCell (computeWindowForSource fl vb cb fs ls)
                 \<longrightarrow> window (computeWindowForSource fl vb cb fs ls)
                       = Some \<lparr>win_x = (xStart, xEnd), win_y = (yStart, yEnd)\<rparr>))
       \<and> (coversWholeCell (computeWindowForSource fl vb cb fs ls)
            \<longrightarrow> window (computeWindowForSource fl vb cb fs ls) = None
              \<and> renderBounds (computeWindowForSource fl vb cb fs ls) = finBounds cb
              \<and> (\<forall>getRaster cell level sels context.
                    vc_viewportBounds cell = vb \<and> vc_cellBounds cell = cb
                    \<and> ctx_fullSize context = fs
                    \<and> sources (vc_loader cell) \<noteq> []
                    \<and> getSourceDimensions
                         (sources (vc_loader cell)
                            ! min level (length (sources (vc_loader cell)) - 1)) = Inr ls
                    \<longrightarrow> loadVisibleCell fl getRaster cell level sels context
                        = loadVisibleCell fl (\<lambda>source selection w. getRaster source selection None)
                            cell level sels context))"
proof -
  let ?res = "computeWindowForSource fl vb cb fs ls"
  obtain xs xe ys ye where r: "windowRanges fl vb cb fs ls = (xs, xe, ys, ye)"
    by (metis prod_cases4)
  have a: "coversWholeCell ?res
             \<longleftrightarrow> xs = Fin 0 \<and> xe = Fin (real (width ls))
                  \<and> ys = Fin 0 \<and> ye = Fin (real (height ls))"
    using assms by (simp add: computeWindowForSource_def r Let_def js_eq_Fin)
  have b: "\<not> coversWholeCell ?res
             \<longrightarrow> window ?res = Some \<lparr>win_x = (xs, xe), win_y = (ys, ye)\<rparr>"
    using assms by (simp add: computeWindowForSource_def r Let_def js_eq_Fin)
  have c: "window ?res = None \<and> renderBounds ?res = finBounds cb"
    if "coversWholeCell ?res"
    using assms that by (simp add: computeWindowForSource_def r Let_def js_eq_Fin)
  have d: "loadVisibleCell fl getRaster cell level sels gctx
         = loadVisibleCell fl (\<lambda>source selection w. getRaster source selection None)
                            cell level sels gctx"
    if w: "window ?res = None"
      and cell: "vc_viewportBounds cell = vb" "vc_cellBounds cell = cb" "ctx_fullSize gctx = fs"
      and src: "sources (vc_loader cell) \<noteq> []"
      and dims: "getSourceDimensions (sources (vc_loader cell)
                            ! min level (length (sources (vc_loader cell)) - 1)) = Inr ls"
    for getRaster :: raster and cell :: VisibleGridCell and level sels
      and gctx :: GridContext
    using src by (simp add: loadVisibleCell_def Let_def dims cell w del: One_nat_def)
  have first: "case windowRanges fl vb cb fs ls of
            (xStart, xEnd, yStart, yEnd) \<Rightarrow>
              (coversWholeCell ?res
                 \<longleftrightarrow> xStart = Fin 0 \<and> xEnd = Fin (real (width ls))
                      \<and> yStart = Fin 0 \<and> yEnd = Fin (real (height ls)))
            \<and> (\<not> coversWholeCell ?res
                 \<longrightarrow> window ?res = Some \<lparr>win_x = (xStart, xEnd), win_y = (yStart, yEnd)\<rparr>)"
    unfolding r using a b by simp
  have second: "coversWholeCell ?res
            \<longrightarrow> window ?res = None \<and> renderBounds ?res = finBounds cb
              \<and> (\<forall>getRaster cell level sels context.
                    vc_viewportBounds cell = vb \<and> vc_cellBounds cell = cb
                    \<and> ctx_fullSize context = fs
                    \<and> sources (vc_loader cell) \<noteq> []
                    \<and> getSourceDimensions
                         (sources (vc_loader cell)
                            ! min level (length (sources (vc_loader cell)) - 1)) = Inr ls
                    \<longrightarrow> loadVisibleCell fl getRaster cell level sels context
                        = loadVisibleCell fl (\<lambda>source selection w. getRaster source selection None)
                            cell level sels context)"
  proof (intro impI conjI allI)
    assume cov: "coversWholeCell ?res"
    show "window ?res = None" using c [OF cov] by simp
    show "renderBounds ?res = finBounds cb" using c [OF cov] by simp
  next
    fix getRaster :: raster and cell :: VisibleGridCell and level sels
      and gctx :: GridContext
    assume cov: "coversWholeCell ?res"
      and h: "vc_viewportBounds cell = vb \<and> vc_cellBounds cell = cb
                    \<and> ctx_fullSize gctx = fs
                    \<and> sources (vc_loader cell) \<noteq> []
                    \<and> getSourceDimensions
                         (sources (vc_loader cell)
                            ! min level (length (sources (vc_loader cell)) - 1)) = Inr ls"
    have w: "window ?res = None" using c [OF cov] by simp
    show "loadVisibleCell fl getRaster cell level sels gctx
            = loadVisibleCell fl (\<lambda>source selection w. getRaster source selection None)
                 cell level sels gctx"
      by (rule d [OF w]) (use h in blast)+
  qed
  show ?thesis using first second by (rule conjI)
qed

theorem coversWholeCell_iff_full_window_witness:
  "coversWholeCell (computeWindowForSource (\<lambda>v. v) (vc_viewportBounds exCell) (vc_cellBounds exCell)
       (ctx_fullSize exContext) \<lparr>width = 500, height = 500\<rparr>)
   \<and> window (computeWindowForSource (\<lambda>v. v) (vc_viewportBounds exCell) (vc_cellBounds exCell)
       (ctx_fullSize exContext) \<lparr>width = 500, height = 500\<rparr>) = None
   \<and> windowRanges (\<lambda>v. v) (vc_viewportBounds exCell) (vc_cellBounds exCell)
       (ctx_fullSize exContext) \<lparr>width = 500, height = 500\<rparr> = (Fin 0, Fin 500, Fin 0, Fin 500)
   \<and> loadVisibleCell (\<lambda>v. v) exRaster exCell 1 [[0, 0, 0]] exContext
       = loadVisibleCell (\<lambda>v. v) (\<lambda>source selection w. exRaster source selection None)
           exCell 1 [[0, 0, 0]] exContext
   \<and> \<not> coversWholeCell (computeWindowForSource (\<lambda>v. v) \<lparr>left = 0, right = 500, top_edge = 0, bottom = 1000\<rparr>
       (vc_cellBounds exCell) (ctx_fullSize exContext) \<lparr>width = 500, height = 500\<rparr>)
   \<and> window (computeWindowForSource (\<lambda>v. v) \<lparr>left = 0, right = 500, top_edge = 0, bottom = 1000\<rparr>
       (vc_cellBounds exCell) (ctx_fullSize exContext) \<lparr>width = 500, height = 500\<rparr>)
       = Some \<lparr>win_x = (Fin 0, Fin 250), win_y = (Fin 0, Fin 500)\<rparr>"
proof -
  have ls: "0 < width \<lparr>width = 500, height = 500\<rparr>" "0 < height \<lparr>width = 500, height = 500\<rparr>"
    by simp_all
  have dims: "getSourceDimensions (sources (vc_loader exCell)
                 ! min 1 (length (sources (vc_loader exCell)) - 1))
              = Inr \<lparr>width = 500, height = 500\<rparr>"
    by (simp add: exCell_def exLoader_def exSource_def getSourceDimensions_def)
  have r1: "windowRanges (\<lambda>v. v) (vc_viewportBounds exCell) (vc_cellBounds exCell)
       (ctx_fullSize exContext) \<lparr>width = 500, height = 500\<rparr> = (Fin 0, Fin 500, Fin 0, Fin 500)"
    by (simp add: exCell_def exContext_def windowRanges_def clamp_def js_div_def Let_def)
  have r2: "windowRanges (\<lambda>v. v) \<lparr>left = 0, right = 500, top_edge = 0, bottom = 1000\<rparr> (vc_cellBounds exCell)
       (ctx_fullSize exContext) \<lparr>width = 500, height = 500\<rparr> = (Fin 0, Fin 250, Fin 0, Fin 500)"
    by (simp add: exCell_def exContext_def windowRanges_def clamp_def js_div_def Let_def)
  have src: "sources (vc_loader exCell) \<noteq> []"
    by (simp add: exCell_def exLoader_def)
  let ?vb = "vc_viewportBounds exCell" and ?cb = "vc_cellBounds exCell"
  let ?fs = "ctx_fullSize exContext" and ?ls = "\<lparr>width = 500, height = 500\<rparr>"
  let ?vb2 = "\<lparr>left = 0, right = 500, top_edge = 0, bottom = 1000\<rparr> :: CellBounds"
  note t1 = coversWholeCell_iff_full_window [OF ls, of "\<lambda>v. v" ?vb ?cb ?fs, unfolded r1 prod.case]
  note t2 = coversWholeCell_iff_full_window [OF ls, of "\<lambda>v. v" ?vb2 ?cb ?fs, unfolded r2 prod.case]
  from t1 have cov: "coversWholeCell (computeWindowForSource (\<lambda>v. v) ?vb ?cb ?fs ?ls)"
    by simp
  from t1 cov have w: "window (computeWindowForSource (\<lambda>v. v) ?vb ?cb ?fs ?ls) = None"
    by blast
  from t1 cov have
    "\<forall>getRaster cell level sels context.
        vc_viewportBounds cell = ?vb \<and> vc_cellBounds cell = ?cb
        \<and> ctx_fullSize context = ?fs
        \<and> sources (vc_loader cell) \<noteq> []
        \<and> getSourceDimensions
             (sources (vc_loader cell)
                ! min level (length (sources (vc_loader cell)) - 1)) = Inr ?ls
        \<longrightarrow> loadVisibleCell (\<lambda>v. v) getRaster cell level sels context
            = loadVisibleCell (\<lambda>v. v) (\<lambda>source selection w. getRaster source selection None)
                cell level sels context"
    by blast
  then have l: "loadVisibleCell (\<lambda>v. v) exRaster exCell 1 [[0, 0, 0]] exContext
       = loadVisibleCell (\<lambda>v. v) (\<lambda>source selection w. exRaster source selection None)
           exCell 1 [[0, 0, 0]] exContext"
    using dims src by blast
  from t2 have ncov: "\<not> coversWholeCell (computeWindowForSource (\<lambda>v. v) ?vb2 ?cb ?fs ?ls)"
    by simp
  from t2 ncov have w2: "window (computeWindowForSource (\<lambda>v. v) ?vb2 ?cb ?fs ?ls)
       = Some \<lparr>win_x = (Fin 0, Fin 250), win_y = (Fin 0, Fin 500)\<rparr>"
    by blast
  show ?thesis
    using cov w r1 l ncov w2 by (intro conjI)
qed

section \<open>Completion of a fetch batch\<close>

text \<open>
  C1. A batch that completes when the active resolution level is no longer the level it
  was issued for leaves the shared state as it is, whether the batch resolved or failed:
  both callbacks return before they set anything, and so does their chain, which is the
  completion that \<open>#refreshAndSetState\<close> issues. Read the other way round, a completion
  that changes the state ran at the level it was issued for.
\<close>

theorem stale_batch_never_applied:
  assumes "resolutionLevel st \<noteq> level"
  shows "completeBatch level ctx settled st = st
       \<and> onFulfilled level ctx entries st = Inr st
       \<and> onRejected level st = st
       \<and> (\<forall>fl getRaster props viewport context st0 st1 completion.
             refreshAndSetState fl getRaster props level viewport context st0
               = Inr (st1, Some completion)
             \<longrightarrow> completion st = st)"
proof -
  have c: "completeBatch level c settled' st = st" for c settled'
    using assms
    by (simp add: completeBatch_def onFulfilled_def onRejected_def split: sum.splits)
  have "completion st = st"
    if "refreshAndSetState fl getRaster props level viewport gctx st0 = Inr (st1, Some completion)"
    for fl :: rounding and getRaster :: raster and props :: GridLayerProps and viewport :: "Viewport option"
      and gctx :: "GridContext option" and st0 st1 :: SharedLayerState
      and completion :: "SharedLayerState \<Rightarrow> SharedLayerState"
  proof -
    from that obtain c settled' where "completion = completeBatch level c settled'"
      by (auto simp: refreshAndSetState_def Let_def split: sum.splits option.splits)
    then show ?thesis by (simp add: c)
  qed
  moreover have "onFulfilled level ctx entries st = Inr st"
    using assms by (simp add: onFulfilled_def)
  moreover have "onRejected level st = st"
    using assms by (simp add: onRejected_def)
  ultimately show ?thesis using c by blast
qed

theorem stale_batch_never_applied_witness:
  "resolutionLevel (exState 2) \<noteq> 1
   \<and> completeBatch 1 exContext (Inr [exEntry True 500 500]) (exState 2) = exState 2
   \<and> completeBatch 1 exContext (Inl FetchError) (exState 2) = exState 2
   \<and> completeBatch 2 exContext (Inr [exEntry True 500 500]) (exState 2) \<noteq> exState 2"
proof -
  have h: "resolutionLevel (exState 2) \<noteq> 1" by (simp add: exState_def)
  have "completeBatch 2 exContext (Inr [exEntry True 500 500]) (exState 2) \<noteq> exState 2"
    by (simp add: completeBatch_def onFulfilled_def validateWidthHeight_def exState_def
          exEntry_def exContext_def)
  moreover have "completeBatch 1 exContext (Inr [exEntry True 500 500]) (exState 2) = exState 2"
    using stale_batch_never_applied [OF h, of exContext "Inr [exEntry True 500 500]"]
    by blast
  moreover have "completeBatch 1 exContext (Inl FetchError) (exState 2) = exState 2"
    using stale_batch_never_applied [OF h, of exContext "Inl FetchError"]
    by blast
  ultimately show ?thesis using h by blast
qed

section \<open>Validation of a batch\<close>

lemma validateLoop_ok:
  "validateLoop w h es = Inr () \<longleftrightarrow>
     (\<forall>e \<in> set es. td_width (e_data e) = w \<and> td_height (e_data e) = h)"
  by (induction es) auto

lemma validateLoop_fails:
  "validateLoop w h es \<noteq> Inr () \<Longrightarrow>
     validateLoop w h es = Inl (AssertionError ''Grid data is not same shape.'')"
  by (induction es) (auto split: if_splits)

lemma validateWidthHeight_cases:
  assumes "es \<noteq> []"
  shows "validateWidthHeight es =
           (if sameShape es
            then Inr (td_width (e_data (hd es)), td_height (e_data (hd es)))
            else Inl (AssertionError ''Grid data is not same shape.''))"
proof (cases es)
  case Nil
  with assms show ?thesis by simp
next
  case (Cons first rest)
  let ?w = "td_width (e_data first)" and ?h = "td_height (e_data first)"
  show ?thesis
  proof (cases "validateLoop ?w ?h es = Inr ()")
    case True
    then have "sameShape es"
      unfolding sameShape_def using Cons validateLoop_ok [of ?w ?h es] by simp
    then show ?thesis
      using True Cons by (simp add: validateWidthHeight_def Let_def)
  next
    case False
    then have "\<not> sameShape es"
      unfolding sameShape_def using Cons validateLoop_ok [of ?w ?h es] by simp
    then show ?thesis
      using validateLoop_fails [OF False] Cons
      by (simp add: validateWidthHeight_def Let_def)
  qed
qed

text \<open>
  C4, as stated, fails. The shapes are compared only when every entry of the batch
  covers its whole cell. In a batch with one entry that covers its cell in part, two
  entries that cover their whole cells and report 250 by 250 and 125 by 125 raise
  nothing, and the batch is committed to the state. Nor is a batch compared that
  completes after the active level has moved on.
\<close>

theorem mixed_batch_not_validated:
  "e_coversWholeCell (exEntry True 250 250) \<and> e_coversWholeCell (exEntry True 125 125)
   \<and> td_width (e_data (exEntry True 250 250)) \<noteq> td_width (e_data (exEntry True 125 125))
   \<and> \<not> completionRaised 1 exContext
         (Inr [exEntry True 250 250, exEntry True 125 125, exEntry False 10 10]) (exState 1)
   \<and> gridData (completeBatch 1 exContext
         (Inr [exEntry True 250 250, exEntry True 125 125, exEntry False 10 10]) (exState 1))
       = [exEntry True 250 250, exEntry True 125 125, exEntry False 10 10]
   \<and> \<not> completionRaised 1 exContext
         (Inr [exEntry True 250 250, exEntry True 125 125]) (exState 2)"
  by (simp add: completionRaised_def completeBatch_def onFulfilled_def onRejected_def
        validateWidthHeight_def exEntry_def exState_def exContext_def)

text \<open>
  C4, amended. For a non-empty batch that completes at its own level and in which every
  entry covers its whole cell, all the entries must report the width and height of the
  first: the first callback raises the assertion \<open>Grid data is not same shape.\<close> if and
  only if one of them differs, and the exception goes to the second callback. A batch
  with an entry that covers its cell in part is not compared; like a batch of one shape,
  it is committed. What the layer shows after a caught assertion is not part of the
  statement.
\<close>

theorem validation_only_for_whole_cell_batches:
  assumes "resolutionLevel st = level" and "entries \<noteq> []"
  shows "(onFulfilled level ctx entries st = Inl (AssertionError ''Grid data is not same shape.'')
            \<longleftrightarrow> list_all e_coversWholeCell entries \<and> \<not> sameShape entries)
       \<and> (completionRaised level ctx (Inr entries) st
            \<longleftrightarrow> list_all e_coversWholeCell entries \<and> \<not> sameShape entries)
       \<and> (completionRaised level ctx (Inr entries) st \<longrightarrow>
            completeBatch level ctx (Inr entries) st = onRejected level st)
       \<and> (\<not> (list_all e_coversWholeCell entries \<and> \<not> sameShape entries) \<longrightarrow>
            onFulfilled level ctx entries st =
              Inr (st\<lparr>gridData := entries,
                      fullWidth := width (ctx_fullSize ctx),
                      fullHeight := height (ctx_fullSize ctx)\<rparr>))"
proof (intro conjI)
  show "onFulfilled level ctx entries st = Inl (AssertionError ''Grid data is not same shape.'')
            \<longleftrightarrow> list_all e_coversWholeCell entries \<and> \<not> sameShape entries"
    using assms by (simp add: onFulfilled_def validateWidthHeight_cases)
  show "completionRaised level ctx (Inr entries) st
            \<longleftrightarrow> list_all e_coversWholeCell entries \<and> \<not> sameShape entries"
    using assms by (simp add: completionRaised_def onFulfilled_def validateWidthHeight_cases)
  show "completionRaised level ctx (Inr entries) st \<longrightarrow>
            completeBatch level ctx (Inr entries) st = onRejected level st"
    by (simp add: completionRaised_def completeBatch_def split: sum.splits)
  show "\<not> (list_all e_coversWholeCell entries \<and> \<not> sameShape entries) \<longrightarrow>
            onFulfilled level ctx entries st =
              Inr (st\<lparr>gridData := entries,
                      fullWidth := width (ctx_fullSize ctx),
                      fullHeight := height (ctx_fullSize ctx)\<rparr>)"
    using assms by (simp add: onFulfilled_def validateWidthHeight_cases)
qed

theorem validation_only_for_whole_cell_batches_witness:
  "onFulfilled 1 exContext [exEntry True 250 250, exEntry True 125 125] (exState 1)
     = Inl (AssertionError ''Grid data is not same shape.'')
   \<and> completionRaised 1 exContext (Inr [exEntry True 250 250, exEntry True 125 125]) (exState 1)
   \<and> \<not> completionRaised 1 exContext (Inr [exEntry True 250 250, exEntry True 250 250]) (exState 1)"
  using validation_only_for_whole_cell_batches
          [of "exState 1" 1 "[exEntry True 250 250, exEntry True 125 125]" exContext]
        validation_only_for_whole_cell_batches
          [of "exState 1" 1 "[exEntry True 250 250, exEntry True 250 250]" exContext]
  by (simp add: sameShape_def exEntry_def exState_def)

section \<open>Effective concurrency\<close>

text \<open>
  C5, as stated, fails. With an empty selection list the budget itself is passed on,
  where the formula \<open>max(1, ceil(C / 0))\<close> is infinite; and a budget of zero counts as
  no budget, where the formula gives 1.
\<close>

theorem effective_concurrency_guards:
  "getEffectiveConcurrency (Some 10) 0 = Some (Fin 10)
   \<and> js_max (Fin 1) (js_ceil (js_div 10 (real (0::nat)))) = PosInf
   \<and> getEffectiveConcurrency (Some 0) 4 = None
   \<and> js_max (Fin 1) (js_ceil (js_div 0 (real (4::nat)))) = Fin 1"
  by (simp add: getEffectiveConcurrency_def js_div_def)

lemma getEffectiveConcurrency_formula:
  assumes "c \<noteq> 0" and "0 < n"
  shows "getEffectiveConcurrency (Some c) n = Some (Fin (of_int (max 1 \<lceil>c / real n\<rceil>)))"
  using assms by (simp add: getEffectiveConcurrency_def js_div_def max_def)

lemma pMap_limited:
  assumes "1 \<le> k" and "k \<le> 9007199254740991"
  shows "pm_concurrency (pMap (Some (Fin (of_int k))) mapper xs) = Fin (of_int k)
       \<and> pm_inFlightBound (pMap (Some (Fin (of_int k))) mapper xs) = min (nat k) (length xs)
       \<and> pm_settled (pMap (Some (Fin (of_int k))) mapper xs) = promiseAll (map mapper xs)"
proof -
  have "validConcurrency (Fin (of_int k))"
    using assms by (simp add: validConcurrency_def)
  then show ?thesis by (simp add: pMap_def)
qed

lemma pMap_unlimited:
  "pm_concurrency (pMap None mapper xs) = PosInf
   \<and> pm_inFlightBound (pMap None mapper xs) = length xs
   \<and> pm_settled (pMap None mapper xs) = promiseAll (map mapper xs)"
  by (simp add: pMap_def validConcurrency_def)

lemma pMap_concurrency:
  "pm_concurrency (pMap conc mapper xs) = (case conc of None \<Rightarrow> PosInf | Some v \<Rightarrow> v)"
  by (simp add: pMap_def Let_def)

lemma refreshGridData_fanOut:
  assumes "ctx_visibleCells gctx \<noteq> []"
  shows "refreshGridData fl getRaster gctx level sels conc =
           FanOut (pMap (getEffectiveConcurrency conc (length sels))
                     (\<lambda>cell. loadVisibleCell fl getRaster cell level sels gctx)
                     (ctx_visibleCells gctx))"
  using assms by (simp add: refreshGridData_def Let_def)

text \<open>
  C5, amended. Whenever a cell is visible, \<open>refreshGridData\<close> fans out over the
  visible cells. For a budget \<open>C\<close> other than zero and a non-empty selection list the
  fan-out runs under the concurrency \<open>max(1, ceil(C / numSelections))\<close>, and never has
  more cells in flight than that; with an empty list it is given \<open>C\<close> itself; without a
  budget, or with a budget of zero, it is given none, runs under \<open>Infinity\<close> and may
  have every visible cell in flight at once. For 10 and 4 selections the concurrency
  is 3.
\<close>

theorem effective_concurrency_formula:
  assumes c: "c \<noteq> 0" and cells: "ctx_visibleCells gctx \<noteq> []"
  shows "(sels \<noteq> [] \<longrightarrow>
            getEffectiveConcurrency (Some c) (length sels)
              = Some (Fin (of_int (max 1 \<lceil>c / real (length sels)\<rceil>)))
            \<and> (\<exists>run. refreshGridData fl getRaster gctx level sels (Some c) = FanOut run
                  \<and> pm_concurrency run = Fin (of_int (max 1 \<lceil>c / real (length sels)\<rceil>))
                  \<and> (max 1 \<lceil>c / real (length sels)\<rceil> \<le> 9007199254740991 \<longrightarrow>
                       pm_inFlightBound run
                         = min (nat (max 1 \<lceil>c / real (length sels)\<rceil>))
                             (length (ctx_visibleCells gctx)))))
       \<and> getEffectiveConcurrency (Some c) 0 = Some (Fin c)
       \<and> (\<exists>run. refreshGridData fl getRaster gctx level [] (Some c) = FanOut run
             \<and> pm_concurrency run = Fin c)
       \<and> (\<forall>conc. conc = None \<or> conc = Some 0 \<longrightarrow>
             getEffectiveConcurrency conc (length sels) = None
             \<and> (\<exists>run. refreshGridData fl getRaster gctx level sels conc = FanOut run
                   \<and> pm_concurrency run = PosInf
                   \<and> pm_inFlightBound run = length (ctx_visibleCells gctx)))
       \<and> getEffectiveConcurrency (Some 10) 4 = Some (Fin 3)"
proof (intro conjI impI allI)
  assume s: "sels \<noteq> []"
  let ?k = "max 1 \<lceil>c / real (length sels)\<rceil>"
  show e: "getEffectiveConcurrency (Some c) (length sels) = Some (Fin (of_int ?k))"
    using c s by (simp add: getEffectiveConcurrency_formula)
  let ?run = "pMap (Some (Fin (of_int ?k)))
                (\<lambda>cell. loadVisibleCell fl getRaster cell level sels gctx) (ctx_visibleCells gctx)"
  have r: "refreshGridData fl getRaster gctx level sels (Some c) = FanOut ?run"
    unfolding refreshGridData_fanOut [OF cells] e ..
  have pc: "pm_concurrency ?run = Fin (of_int ?k)"
    by (simp add: pMap_concurrency)
  have pb: "pm_inFlightBound ?run = min (nat ?k) (length (ctx_visibleCells gctx))"
    if "?k \<le> 9007199254740991"
  proof -
    have one: "1 \<le> ?k" by simp
    from pMap_limited [OF one that] show ?thesis by blast
  qed
  show "\<exists>run. refreshGridData fl getRaster gctx level sels (Some c) = FanOut run
          \<and> pm_concurrency run = Fin (of_int ?k)
          \<and> (?k \<le> 9007199254740991 \<longrightarrow>
               pm_inFlightBound run = min (nat ?k) (length (ctx_visibleCells gctx)))"
    using r pc pb by blast
next
  show e0: "getEffectiveConcurrency (Some c) 0 = Some (Fin c)"
    using c by (simp add: getEffectiveConcurrency_def)
  let ?run = "pMap (Some (Fin c))
                (\<lambda>cell. loadVisibleCell fl getRaster cell level [] gctx) (ctx_visibleCells gctx)"
  have "refreshGridData fl getRaster gctx level [] (Some c) = FanOut ?run"
    unfolding refreshGridData_fanOut [OF cells] using e0 by simp
  moreover have "pm_concurrency ?run = Fin c"
    by (simp add: pMap_concurrency)
  ultimately show "\<exists>run. refreshGridData fl getRaster gctx level [] (Some c) = FanOut run
             \<and> pm_concurrency run = Fin c"
    by blast
next
  fix conc :: "real option"
  assume n: "conc = None \<or> conc = Some 0"
  then show e: "getEffectiveConcurrency conc (length sels) = None"
    by (auto simp: getEffectiveConcurrency_def)
  let ?run = "pMap None
                (\<lambda>cell. loadVisibleCell fl getRaster cell level sels gctx) (ctx_visibleCells gctx)"
  have "refreshGridData fl getRaster gctx level sels conc = FanOut ?run"
    unfolding refreshGridData_fanOut [OF cells] e ..
  then show "\<exists>run. refreshGridData fl getRaster gctx level sels conc = FanOut run
                   \<and> pm_concurrency run = PosInf
                   \<and> pm_inFlightBound run = length (ctx_visibleCells gctx)"
    using pMap_unlimited by blast
next
  have "\<lceil>(10::real) / 4\<rceil> = 3" by (simp add: ceiling_eq_iff)
  then show "getEffectiveConcurrency (Some 10) 4 = Some (Fin 3)"
    by (simp add: getEffectiveConcurrency_def js_div_def)
qed

theorem effective_concurrency_formula_witness:
  "getEffectiveConcurrency (Some 10) (length [[0::nat], [1], [2], [3]]) = Some (Fin 3)
   \<and> (\<exists>run. refreshGridData (\<lambda>v. v) exRaster exWideContext 1 [[0], [1], [2], [3]] (Some 10)
               = FanOut run
         \<and> pm_concurrency run = Fin 3 \<and> pm_inFlightBound run = 3)
   \<and> (\<exists>run. refreshGridData (\<lambda>v. v) exRaster exWideContext 1 [[0], [1], [2], [3]] None
               = FanOut run
         \<and> pm_concurrency run = PosInf \<and> pm_inFlightBound run = 5)"
proof -
  let ?sels = "[[0::nat], [1], [2], [3]]"
  have c: "(10::real) \<noteq> 0" by simp
  have cells: "ctx_visibleCells exWideContext \<noteq> []" by (simp add: exWideContext_def)
  have k: "max 1 \<lceil>(10::real) / real (length ?sels)\<rceil> = 3"
    by (simp add: ceiling_eq_iff)
  have s: "?sels \<noteq> []" by simp
  have len: "length (ctx_visibleCells exWideContext) = 5" by (simp add: exWideContext_def)
  note t = effective_concurrency_formula [OF c cells, of ?sels "\<lambda>v. v" exRaster 1]
  note t1 = t [THEN conjunct1, rule_format, OF s, unfolded k len]
  note t4 = t [THEN conjunct2, THEN conjunct2, THEN conjunct2, THEN conjunct1, rule_format,
               of None, unfolded len]
  have a: "getEffectiveConcurrency (Some 10) (length ?sels) = Some (Fin 3)"
    using t1 [THEN conjunct1] by simp
  from t1 [THEN conjunct2] obtain run where
    run: "refreshGridData (\<lambda>v. v) exRaster exWideContext 1 ?sels (Some 10) = FanOut run"
      "pm_concurrency run = Fin (of_int 3)"
      "(3::int) \<le> 9007199254740991 \<longrightarrow> pm_inFlightBound run = min (nat 3) 5"
    by blast
  from run(2) have r2: "pm_concurrency run = Fin 3" by simp
  from run(3) have r3: "pm_inFlightBound run = 3" by simp
  have b: "\<exists>run. refreshGridData (\<lambda>v. v) exRaster exWideContext 1 ?sels (Some 10) = FanOut run
         \<and> pm_concurrency run = Fin 3 \<and> pm_inFlightBound run = 3"
    using run(1) r2 r3 by blast
  have d: "\<exists>run. refreshGridData (\<lambda>v. v) exRaster exWideContext 1 ?sels None = FanOut run
         \<and> pm_concurrency run = PosInf \<and> pm_inFlightBound run = 5"
    using t4 by blast
  show ?thesis using a b d by (intro conjI)
qed

section \<open>The context builder\<close>

lemma find_sources_None:
  "find (\<lambda>loader. length (sources loader) > 0) lds = None
     \<longleftrightarrow> (\<forall>l \<in> set lds. sources l = [])"
  by (auto simp: find_None_iff)

lemma getAllGridCells_loaders:
  assumes "width d \<noteq> 0" and "height d \<noteq> 0"
  shows "map vc_loader (getAllGridCells lds d sp) = filter (\<lambda>l. sources l \<noteq> []) lds"
  using assms by (simp add: getAllGridCells_def Let_def comp_def)

lemma getAllGridCells_bounds:
  assumes "cell \<in> set (getAllGridCells lds d sp)"
  shows "vc_viewportBounds cell = vc_cellBounds cell
       \<and> vc_cellBounds cell = getCellBounds (vc_loader cell) (width d) (height d) sp
       \<and> sources (vc_loader cell) \<noteq> []"
  using assms by (auto simp: getAllGridCells_def Let_def split: if_splits)

text \<open>
  C8. \<open>buildGridContext\<close> returns \<open>null\<close> exactly when no loader carries a source, or
  the size read from the first source of the first loader that carries one has a zero
  width or height. When it returns a context and no viewport is given, the visible cells
  are the loaders that carry a source, in order, each with its full cell bounds as its
  visible bounds.
\<close>

theorem buildGridContext_null_iff:
  "(buildGridContext props viewport = Inr None \<longleftrightarrow>
      (\<forall>l \<in> set (loaders props). sources l = [])
      \<or> (\<exists>baseLoader d.
            find (\<lambda>loader. length (sources loader) > 0) (loaders props) = Some baseLoader
            \<and> getSourceDimensions (sources baseLoader ! 0) = Inr d
            \<and> (width d = 0 \<or> height d = 0)))
   \<and> (\<forall>gctx. buildGridContext props None = Inr (Some gctx) \<longrightarrow>
         map vc_loader (ctx_visibleCells gctx) = filter (\<lambda>l. sources l \<noteq> []) (loaders props)
         \<and> (\<forall>cell \<in> set (ctx_visibleCells gctx).
               vc_viewportBounds cell = vc_cellBounds cell
               \<and> vc_cellBounds cell =
                   getCellBounds (vc_loader cell) (width (ctx_fullSize gctx))
                     (height (ctx_fullSize gctx)) (ctx_spacer gctx)))"
proof (intro conjI allI impI)
  show "buildGridContext props viewport = Inr None \<longleftrightarrow>
      (\<forall>l \<in> set (loaders props). sources l = [])
      \<or> (\<exists>baseLoader d.
            find (\<lambda>loader. length (sources loader) > 0) (loaders props) = Some baseLoader
            \<and> getSourceDimensions (sources baseLoader ! 0) = Inr d
            \<and> (width d = 0 \<or> height d = 0))"
  proof (cases "find (\<lambda>loader. length (sources loader) > 0) (loaders props)")
    case None
    then have "\<forall>l \<in> set (loaders props). sources l = []"
      using find_sources_None [of "loaders props"] by blast
    moreover have "buildGridContext props viewport = Inr None"
      using None by (simp add: buildGridContext_def Let_def)
    ultimately show ?thesis by simp
  next
    case (Some baseLoader)
    then have ex: "\<not> (\<forall>l \<in> set (loaders props). sources l = [])"
      using find_sources_None [of "loaders props"] by auto
    then have ne: "loaders props \<noteq> []" by auto
    show ?thesis
    proof (cases "getSourceDimensions (sources baseLoader ! 0)")
      case (Inl e)
      then have "buildGridContext props viewport = Inl e"
        using Some ne by (simp add: buildGridContext_def Let_def)
      with ex Some Inl show ?thesis by auto
    next
      case (Inr d)
      then have "buildGridContext props viewport = Inr None \<longleftrightarrow> width d = 0 \<or> height d = 0"
        using Some ne by (simp add: buildGridContext_def Let_def)
      with ex Some Inr show ?thesis by auto
    qed
  qed
next
  fix gctx
  assume b: "buildGridContext props None = Inr (Some gctx)"
  define sp where "sp = (case spacer props of None \<Rightarrow> 0 | Some s \<Rightarrow> s)"
  from b obtain d where d: "width d \<noteq> 0" "height d \<noteq> 0"
    and g: "gctx = \<lparr>ctx_fullSize = d, ctx_spacer = sp,
                   ctx_visibleCells = getAllGridCells (loaders props) d sp\<rparr>"
    by (auto simp: buildGridContext_def Let_def sp_def
          split: if_splits option.splits sum.splits)
  show "map vc_loader (ctx_visibleCells gctx) = filter (\<lambda>l. sources l \<noteq> []) (loaders props)"
    using getAllGridCells_loaders [OF d] by (simp add: g)
  show "\<forall>cell \<in> set (ctx_visibleCells gctx).
               vc_viewportBounds cell = vc_cellBounds cell
               \<and> vc_cellBounds cell =
                   getCellBounds (vc_loader cell) (width (ctx_fullSize gctx))
                     (height (ctx_fullSize gctx)) (ctx_spacer gctx)"
    using getAllGridCells_bounds [of _ "loaders props" d sp] by (simp add: g)
qed

theorem buildGridContext_null_iff_witness:
  "buildGridContext (exProps [exEmptyLoader 0 0]) None = Inr None
   \<and> buildGridContext (exProps [exEmptyLoader 0 0, exLoader 0 1]) None =
       Inr (Some \<lparr>ctx_fullSize = \<lparr>width = 1000, height = 1000\<rparr>, ctx_spacer = 5,
                  ctx_visibleCells =
                    [\<lparr>vc_loader = exLoader 0 1,
                      vc_cellBounds = \<lparr>left = 1005, right = 2005, top_edge = 0, bottom = 1000\<rparr>,
                      vc_viewportBounds = \<lparr>left = 1005, right = 2005, top_edge = 0, bottom = 1000\<rparr>\<rparr>]\<rparr>)
   \<and> map vc_loader
        [\<lparr>vc_loader = exLoader 0 1,
          vc_cellBounds = \<lparr>left = 1005, right = 2005, top_edge = 0, bottom = 1000\<rparr>,
          vc_viewportBounds = \<lparr>left = 1005, right = 2005, top_edge = 0, bottom = 1000\<rparr>\<rparr>]
       = filter (\<lambda>l. sources l \<noteq> []) [exEmptyLoader 0 0, exLoader 0 1]"
proof -
  let ?cells = "[\<lparr>vc_loader = exLoader 0 1,
          vc_cellBounds = \<lparr>left = 1005, right = 2005, top_edge = 0, bottom = 1000\<rparr>,
          vc_viewportBounds = \<lparr>left = 1005, right = 2005, top_edge = 0, bottom = 1000\<rparr>\<rparr>]"
  let ?g = "\<lparr>ctx_fullSize = \<lparr>width = 1000, height = 1000\<rparr>, ctx_spacer = 5,
            ctx_visibleCells = ?cells\<rparr>"
  have e: "\<forall>l \<in> set (loaders (exProps [exEmptyLoader 0 0])). sources l = []"
    by (simp add: exProps_def exEmptyLoader_def)
  have n: "buildGridContext (exProps [exEmptyLoader 0 0]) None = Inr None"
    using buildGridContext_null_iff [of "exProps [exEmptyLoader 0 0]" None] e by blast
  have d: "getSourceDimensions (exSource 1000 1000) = Inr \<lparr>width = 1000, height = 1000\<rparr>"
    by (simp add: getSourceDimensions_def exSource_def)
  have b: "buildGridContext (exProps [exEmptyLoader 0 0, exLoader 0 1]) None = Inr (Some ?g)"
    by (simp add: buildGridContext_def exProps_def exEmptyLoader_def exLoader_def d
          getAllGridCells_def getCellBounds_def Let_def)
  have l: "loaders (exProps [exEmptyLoader 0 0, exLoader 0 1]) = [exEmptyLoader 0 0, exLoader 0 1]"
    by (simp add: exProps_def)
  have "map vc_loader (ctx_visibleCells ?g)
          = filter (\<lambda>l. sources l \<noteq> []) (loaders (exProps [exEmptyLoader 0 0, exLoader 0 1]))"
    using buildGridContext_null_iff [of "exProps [exEmptyLoader 0 0, exLoader 0 1]" None] b
    by blast
  then have m: "map vc_loader ?cells = filter (\<lambda>l. sources l \<noteq> []) [exEmptyLoader 0 0, exLoader 0 1]"
    unfolding l by simp
  show ?thesis using n b m by (intro conjI)
qed

section \<open>Loading a cell\<close>

lemma indexOf_mem:
  "v \<in> set xs \<Longrightarrow> \<exists>i. indexOf xs v = Some i \<and> i < length xs"
  by (induction xs) auto

lemma getSourceDimensions_wellformed:
  assumes "''x'' \<in> set (labels source)" and "''y'' \<in> set (labels source)"
    and "length (labels source) \<le> length (shape source)"
  shows "\<exists>d. getSourceDimensions source = Inr d"
proof -
  from indexOf_mem [OF assms(1)] obtain i where
    i: "indexOf (labels source) ''x'' = Some i" "i < length (labels source)" by blast
  from indexOf_mem [OF assms(2)] obtain j where
    j: "indexOf (labels source) ''y'' = Some j" "j < length (labels source)" by blast
  from i j assms(3) show ?thesis
    by (simp add: getSourceDimensions_def)
qed

text \<open>
  C10. For a cell whose loader carries a source, and whose source at the level has the
  axes \<open>x\<close> and \<open>y\<close> among its labels with an extent for each, loading with an empty
  selection list succeeds: the entry has no data buffer and a tile width and height of 0.
\<close>

theorem loadVisibleCell_no_selections:
  assumes "sources (vc_loader cell) \<noteq> []"
    and "source = sources (vc_loader cell) ! min level (length (sources (vc_loader cell)) - 1)"
    and "''x'' \<in> set (labels source)" and "''y'' \<in> set (labels source)"
    and "length (labels source) \<le> length (shape source)"
  shows "\<exists>entry. loadVisibleCell fl getRaster cell level [] gctx = Inr entry
           \<and> td_data (e_data entry) = []
           \<and> td_width (e_data entry) = 0 \<and> td_height (e_data entry) = 0
           \<and> e_source entry = source"
proof -
  from getSourceDimensions_wellformed [OF assms(3,4,5)] obtain d where
    "getSourceDimensions source = Inr d" by blast
  then have d: "getSourceDimensions
        (sources (vc_loader cell) ! min level (length (sources (vc_loader cell)) - 1)) = Inr d"
    by (simp only: assms(2))
  show ?thesis
    unfolding loadVisibleCell_def Let_def d assms(2)
    using assms(1) by simp
qed

theorem loadVisibleCell_no_selections_witness:
  "\<exists>entry. loadVisibleCell (\<lambda>v. v) exRaster exCell 1 [] exContext = Inr entry
           \<and> td_data (e_data entry) = []
           \<and> td_width (e_data entry) = 0 \<and> td_height (e_data entry) = 0
           \<and> e_source entry = exSource 500 500"
proof -
  have a: "sources (vc_loader exCell) \<noteq> []"
    by (simp add: exCell_def exLoader_def)
  have b: "exSource 500 500
            = sources (vc_loader exCell) ! min 1 (length (sources (vc_loader exCell)) - 1)"
    by (simp add: exCell_def exLoader_def)
  have c: "''x'' \<in> set (labels (exSource 500 500))" "''y'' \<in> set (labels (exSource 500 500))"
    "length (labels (exSource 500 500)) \<le> length (shape (exSource 500 500))"
    by (simp_all add: exSource_def)
  show ?thesis
    by (rule loadVisibleCell_no_selections [OF a b c])
qed

section \<open>Monotonicity of the level selector\<close>

lemma pickLoop_bounds:
  "pickLoop sw sh ds k = Some l \<Longrightarrow> k \<le> l \<and> l < k + length ds"
proof (induction ds arbitrary: k)
  case Nil
  then show ?case by simp
next
  case (Cons d rest)
  show ?case
  proof (cases "pickLoop sw sh rest (k + 1) = Some l")
    case True
    from Cons.IH [OF True] show ?thesis by simp
  next
    case False
    with Cons.prems have "l = k"
      by (simp add: Let_def split: if_splits)
    then show ?thesis by simp
  qed
qed

lemma ratio_mono:
  assumes "w1 \<le> w2" and "h1 \<le> h2" and "0 < (a::nat)" and "0 < (b::nat)"
  shows "min (w1 / real a) (h1 / real b) \<le> min (w2 / real a) (h2 / real b)"
proof -
  have "w1 / real a \<le> w2 / real a" using assms by (simp add: divide_right_mono)
  moreover have "h1 / real b \<le> h2 / real b" using assms by (simp add: divide_right_mono)
  ultimately show ?thesis by (simp add: min_le_iff_disj)
qed

lemma pickLoop_mono:
  assumes "w1 \<le> w2" and "h1 \<le> h2"
  shows "pickLoop w1 h1 ds k = Some l1 \<Longrightarrow>
         \<exists>l2. pickLoop w2 h2 ds k = Some l2 \<and> l2 \<le> l1"
proof (induction ds arbitrary: k)
  case Nil
  then show ?case by simp
next
  case (Cons d rest)
  show ?case
  proof (cases "width d = 0 \<or> height d = 0")
    case True
    with Cons.prems have "pickLoop w1 h1 rest (k + 1) = Some l1" by auto
    from Cons.IH [OF this] True show ?thesis by auto
  next
    case False
    then have pos: "0 < width d" "0 < height d" by simp_all
    let ?r1 = "min (w1 / real (width d)) (h1 / real (height d))"
    let ?r2 = "min (w2 / real (width d)) (h2 / real (height d))"
    have le: "?r1 \<le> ?r2" by (rule ratio_mono [OF assms pos])
    show ?thesis
    proof (cases "?r2 \<ge> MIN_PIXELS_PER_DATA_PIXEL")
      case True
      have "k \<le> l1" using pickLoop_bounds [OF Cons.prems] by simp
      moreover have "pickLoop w2 h2 (d # rest) k = Some k"
        using True False by (simp add: Let_def)
      ultimately show ?thesis by simp
    next
      case r2: False
      with le have r1: "\<not> ?r1 \<ge> MIN_PIXELS_PER_DATA_PIXEL" by linarith
      with False Cons.prems have "pickLoop w1 h1 rest (k + 1) = Some l1"
        by (auto simp: Let_def split: if_splits)
      from Cons.IH [OF this] obtain l2 where
        l2: "pickLoop w2 h2 rest (k + 1) = Some l2" "l2 \<le> l1" by blast
      have "pickLoop w2 h2 (d # rest) k = pickLoop w2 h2 rest (k + 1)"
        using r2 False by (auto simp: Let_def)
      with l2 show ?thesis by simp
    qed
  qed
qed

lemma pickResolutionLevel_unfold:
  assumes "\<not> getMaxValidLevel (loaders props) \<le> 0"
    and "getLevelDimensions (loaders props) = Inr allDimensions"
    and "getCellScreenSize (modelMatrix props) st vp = Some (sw, sh)"
    and "ds = take (getMaxValidLevel (loaders props) + 1) allDimensions"
  shows "pickResolutionLevel props st vp =
           (if length ds \<le> 1 then Inr 0
            else case pickLoop sw sh ds 0 of
                   Some l \<Rightarrow> Inr l
                 | None \<Rightarrow> Inr (length ds - 1))"
  unfolding pickResolutionLevel_def Let_def assms(2) assms(3) assms(4)
  by (simp only: assms(1) if_False sum.case option.case prod.case)

text \<open>
  C6. For the same layer and state, if a viewport projects the cell to a screen width and
  height at least as large as another viewport does, the level picked for it is at most
  the level picked for the other; an exception of \<open>getSourceDimensions\<close> is raised for
  both or for neither.
\<close>

theorem pickResolutionLevel_monotone:
  assumes s1: "getCellScreenSize (modelMatrix props) st (Some v1) = Some (w1, h1)"
    and s2: "getCellScreenSize (modelMatrix props) st (Some v2) = Some (w2, h2)"
    and w: "w1 \<le> w2" and h: "h1 \<le> h2"
  shows "(\<exists>e. pickResolutionLevel props st (Some v1) = Inl e
            \<and> pickResolutionLevel props st (Some v2) = Inl e)
       \<or> (\<exists>l1 l2. pickResolutionLevel props st (Some v1) = Inr l1
            \<and> pickResolutionLevel props st (Some v2) = Inr l2 \<and> l2 \<le> l1)"
proof (cases "getMaxValidLevel (loaders props) \<le> 0")
  case True
  then show ?thesis by (simp add: pickResolutionLevel_def)
next
  case maxLevel: False
  show ?thesis
  proof (cases "getLevelDimensions (loaders props)")
    case (Inl e)
    with maxLevel show ?thesis by (simp add: pickResolutionLevel_def)
  next
    case (Inr allDimensions)
    define ds where "ds = take (getMaxValidLevel (loaders props) + 1) allDimensions"
    have p1: "pickResolutionLevel props st (Some v1) =
                (if length ds \<le> 1 then Inr 0
                 else case pickLoop w1 h1 ds 0 of Some l \<Rightarrow> Inr l | None \<Rightarrow> Inr (length ds - 1))"
      by (rule pickResolutionLevel_unfold [OF maxLevel Inr s1 ds_def])
    have p2: "pickResolutionLevel props st (Some v2) =
                (if length ds \<le> 1 then Inr 0
                 else case pickLoop w2 h2 ds 0 of Some l \<Rightarrow> Inr l | None \<Rightarrow> Inr (length ds - 1))"
      by (rule pickResolutionLevel_unfold [OF maxLevel Inr s2 ds_def])
    show ?thesis
    proof (cases "length ds \<le> 1")
      case True
      with p1 p2 show ?thesis by simp
    next
      case long: False
      show ?thesis
      proof (cases "pickLoop w1 h1 ds 0")
        case None
        have "\<exists>l2. pickResolutionLevel props st (Some v2) = Inr l2 \<and> l2 \<le> length ds - 1"
        proof (cases "pickLoop w2 h2 ds 0")
          case None
          with p2 long show ?thesis by simp
        next
          case (Some l2)
          from pickLoop_bounds [OF Some] have "l2 \<le> length ds - 1" by simp
          with p2 long Some show ?thesis by simp
        qed
        with p1 long None show ?thesis by simp
      next
        case (Some l1)
        from pickLoop_mono [OF w h Some] obtain l2 where
          "pickLoop w2 h2 ds 0 = Some l2" "l2 \<le> l1" by blast
        with p1 p2 long Some show ?thesis by simp
      qed
    qed
  qed
qed

lemma exMax: "getMaxValidLevel [exLoader 0 0] = 2"
  by (simp add: getMaxValidLevel_def exLoader_def)

lemma exDims: "getLevelDimensions [exLoader 0 0]
    = Inr [\<lparr>width = 1000, height = 1000\<rparr>, \<lparr>width = 500, height = 500\<rparr>, \<lparr>width = 250, height = 250\<rparr>]"
  by (simp add: getLevelDimensions_def exLoader_def exSource_def getSourceDimensions_def)

lemma exScreen: "0 \<le> k \<Longrightarrow> getCellScreenSize (modelMatrix (exProps [exLoader 0 0])) (exState 0) (Some (exViewport k))
    = Some (1000 * k, 1000 * k)"
  by (simp add: getCellScreenSize_def exProps_def exState_def exViewport_def applyModelMatrix_def Let_def)

theorem pickResolutionLevel_monotone_witness:
  "pickResolutionLevel (exProps [exLoader 0 0]) (exState 0) (Some (exViewport (3 / 10))) = Inr 1
   \<and> pickResolutionLevel (exProps [exLoader 0 0]) (exState 0) (Some (exViewport (3 / 5))) = Inr 0
"
proof -
  have s1: "getCellScreenSize (modelMatrix (exProps [exLoader 0 0])) (exState 0)
              (Some (exViewport (3 / 10))) = Some (300, 300)"
    using exScreen [of "3 / 10"] by simp
  have s2: "getCellScreenSize (modelMatrix (exProps [exLoader 0 0])) (exState 0)
              (Some (exViewport (3 / 5))) = Some (600, 600)"
    using exScreen [of "3 / 5"] by simp
  have l: "loaders (exProps [exLoader 0 0]) = [exLoader 0 0]" by (simp add: exProps_def)
  have p1: "pickResolutionLevel (exProps [exLoader 0 0]) (exState 0) (Some (exViewport (3 / 10))) = Inr 1"
    by (simp add: pickResolutionLevel_def l exMax exDims s1 MIN_PIXELS_PER_DATA_PIXEL_def Let_def)
  have p2: "pickResolutionLevel (exProps [exLoader 0 0]) (exState 0) (Some (exViewport (3 / 5))) = Inr 0"
    by (simp add: pickResolutionLevel_def l exMax exDims s2 MIN_PIXELS_PER_DATA_PIXEL_def Let_def)
  have le: "(300::real) \<le> 600" by simp
  from pickResolutionLevel_monotone [OF s1 s2 le le] p1 p2 show ?thesis by simp
qed

section \<open>Row and column of a pick\<close>

lemma nat_int_le: "real (n::nat) \<le> of_int k \<longleftrightarrow> int n \<le> k"
proof -
  have "real n = of_int (int n)" by simp
  then show ?thesis by (simp only: of_int_le_iff)
qed

text \<open>
  C7, as stated, fails. The spacer is a number without a guard. With a spacer of -100
  and a cell of 100 by 100 the divisor \<open>height + spacer\<close> is zero, the pick at
  \<open>(0, 0)\<close> gives the quotient \<open>0 / 0\<close>, and the row and the column are NaN. Every
  comparison of the range check is false for NaN, so the pick is annotated, with a row
  and a column that lie in no range. With a cell of 100 by 50 only the column is NaN.
\<close>

theorem pick_annotated_with_nan:
  "getPickingInfo exCancelProps (exPickState 100 100) (exPick 0 0)
     = (exPick 0 0)\<lparr>gridCoord := Some (NaN, NaN), gridLabels := Some (None, None)\<rparr>
   \<and> getPickingInfo exCancelProps (exPickState 100 50) (exPick 0 (- 60))
     = (exPick 0 (- 60))\<lparr>gridCoord := Some (Fin 1, NaN), gridLabels := Some (Some ''B'', None)\<rparr>
   \<and> js_floor (js_div 0 (real (100::nat) + (- 100))) = NaN"
proof -
  have f: "\<lfloor>(6::real) / 5\<rfloor> = 1" by (simp add: floor_eq_iff)
  show ?thesis
    by (simp add: getPickingInfo_def exCancelProps_def exProps_def exPickState_def exState_def
          exPick_def js_div_def labelAt_def f Let_def)
qed

text \<open>
  C7, amended. For a pick with a world coordinate \<open>(x, y)\<close>: when the full width or
  height is zero the picking info is returned unchanged. Otherwise, neither quotient
  being \<open>0 / 0\<close>, the row is \<open>floor(y / (height + spacer))\<close> and the column is
  \<open>floor(x / (width + spacer))\<close>; the info is annotated with them and their labels when
  \<open>0 \<le> row < rows\<close> and \<open>0 \<le> column < columns\<close>, and returned unchanged otherwise,
  also when a divisor is zero and the quotient infinite.
\<close>

theorem getPickingInfo_grid_annotation:
  assumes "coordinate info = Some (x, y)"
    and "sp = (case spacer props of None \<Rightarrow> 0 | Some s \<Rightarrow> s)"
    and "dh = real (fullHeight st) + sp" and "dw = real (fullWidth st) + sp"
  shows "(fullWidth st = 0 \<or> fullHeight st = 0 \<longrightarrow> getPickingInfo props st info = info)
       \<and> (fullWidth st \<noteq> 0 \<and> fullHeight st \<noteq> 0
            \<and> \<not> (dh = 0 \<and> y = 0) \<and> \<not> (dw = 0 \<and> x = 0) \<longrightarrow>
          getPickingInfo props st info =
            (let r = \<lfloor>y / dh\<rfloor>; c = \<lfloor>x / dw\<rfloor>
             in if dh \<noteq> 0 \<and> dw \<noteq> 0
                   \<and> 0 \<le> r \<and> r < int (rows props) \<and> 0 \<le> c \<and> c < int (columns props)
                then info\<lparr>gridCoord := Some (Fin (of_int r), Fin (of_int c)),
                          gridLabels := Some (labelAt (rowLabels props) (Fin (of_int r)),
                                              labelAt (columnLabels props) (Fin (of_int c)))\<rparr>
                else info))"
proof (intro conjI impI)
  assume "fullWidth st = 0 \<or> fullHeight st = 0"
  then show "getPickingInfo props st info = info"
    using assms(1) by (auto simp: getPickingInfo_def)
next
  assume h: "fullWidth st \<noteq> 0 \<and> fullHeight st \<noteq> 0
            \<and> \<not> (dh = 0 \<and> y = 0) \<and> \<not> (dw = 0 \<and> x = 0)"
  define r where "r = js_floor (js_div y dh)"
  define c where "c = js_floor (js_div x dw)"
  have g: "getPickingInfo props st info =
          (if js_lt r (Fin 0) \<or> js_lt c (Fin 0)
              \<or> js_ge r (Fin (real (rows props))) \<or> js_ge c (Fin (real (columns props)))
           then info
           else info\<lparr>gridCoord := Some (r, c),
                     gridLabels := Some (labelAt (rowLabels props) r,
                                         labelAt (columnLabels props) c)\<rparr>)"
    using h
    by (simp add: getPickingInfo_def Let_def assms(1) assms(2) [symmetric] assms(3) assms(4)
          r_def c_def)
  show "getPickingInfo props st info =
            (let r = \<lfloor>y / dh\<rfloor>; c = \<lfloor>x / dw\<rfloor>
             in if dh \<noteq> 0 \<and> dw \<noteq> 0
                   \<and> 0 \<le> r \<and> r < int (rows props) \<and> 0 \<le> c \<and> c < int (columns props)
                then info\<lparr>gridCoord := Some (Fin (of_int r), Fin (of_int c)),
                          gridLabels := Some (labelAt (rowLabels props) (Fin (of_int r)),
                                              labelAt (columnLabels props) (Fin (of_int c)))\<rparr>
                else info)"
  proof (cases "dh = 0")
    case True
    with h have "y \<noteq> 0" by blast
    then have "r = PosInf \<or> r = NegInf"
      using True by (auto simp: r_def js_div_def)
    then have "js_lt r (Fin 0) \<or> js_ge r (Fin (real (rows props)))" by auto
    with g True show ?thesis by (auto simp: Let_def)
  next
    case dh: False
    show ?thesis
    proof (cases "dw = 0")
      case True
      with h have "x \<noteq> 0" by blast
      then have "c = PosInf \<or> c = NegInf"
        using True by (auto simp: c_def js_div_def)
      then have "js_lt c (Fin 0) \<or> js_ge c (Fin (real (columns props)))" by auto
      with g True show ?thesis by (auto simp: Let_def)
    next
      case dw: False
      let ?r = "\<lfloor>y / dh\<rfloor>" and ?c = "\<lfloor>x / dw\<rfloor>"
      have r: "r = Fin (of_int ?r)" using dh by (simp add: r_def js_div_def)
      have c: "c = Fin (of_int ?c)" using dw by (simp add: c_def js_div_def)
      have "js_lt (Fin (of_int ?r)) (Fin 0) \<longleftrightarrow> ?r < 0" by simp
      moreover have "js_lt (Fin (of_int ?c)) (Fin 0) \<longleftrightarrow> ?c < 0" by simp
      moreover have "js_ge (Fin (of_int ?r)) (Fin (real (rows props)))
                       \<longleftrightarrow> int (rows props) \<le> ?r"
        by (simp add: nat_int_le del: of_int_floor_cancel floor_of_int le_floor_iff)
      moreover have "js_ge (Fin (of_int ?c)) (Fin (real (columns props)))
                       \<longleftrightarrow> int (columns props) \<le> ?c"
        by (simp add: nat_int_le del: of_int_floor_cancel floor_of_int le_floor_iff)
      ultimately show ?thesis
        unfolding g r c Let_def using dh dw by (auto simp: not_less not_le)
    qed
  qed
qed

theorem getPickingInfo_grid_annotation_witness:
  "getPickingInfo exPickProps (exPickState 100 100) (exPick 130 5)
     = (exPick 130 5)\<lparr>gridCoord := Some (Fin 0, Fin 1),
                       gridLabels := Some (Some ''A'', Some ''2'')\<rparr>
   \<and> getPickingInfo exPickProps (exPickState 100 100) (exPick (- 5) 5) = exPick (- 5) 5
   \<and> getPickingInfo exPickProps (exPickState 100 100) (exPick 130 230) = exPick 130 230
   \<and> getPickingInfo exPickProps (exPickState 0 0) (exPick 130 5) = exPick 130 5
   \<and> getPickingInfo exCancelProps (exPickState 100 100) (exPick 130 5) = exPick 130 5"
proof -
  have spc: "(- 100::real) = (case spacer exCancelProps of None \<Rightarrow> 0 | Some s \<Rightarrow> s)"
    by (simp add: exCancelProps_def exProps_def)
  have dc: "(0::real) = real (fullHeight (exPickState 100 100)) + - 100"
    "(0::real) = real (fullWidth (exPickState 100 100)) + - 100"
    by (simp_all add: exPickState_def)
  have sp: "(10::real) = (case spacer exPickProps of None \<Rightarrow> 0 | Some s \<Rightarrow> s)"
    by (simp add: exPickProps_def exProps_def)
  have d: "(110::real) = real (fullHeight (exPickState 100 100)) + 10"
    "(110::real) = real (fullWidth (exPickState 100 100)) + 10"
    "(10::real) = real (fullHeight (exPickState 0 0)) + 10"
    "(10::real) = real (fullWidth (exPickState 0 0)) + 10"
    by (simp_all add: exPickState_def)
  have c: "coordinate (exPick x y) = Some (x, y)" for x y
    by (simp add: exPick_def)
  have st: "fullWidth (exPickState 100 100) = 100" "fullHeight (exPickState 100 100) = 100"
    "fullWidth (exPickState 0 0) = 0"
    by (simp_all add: exPickState_def)
  have pr: "rows exPickProps = 2" "columns exPickProps = 2"
    "rowLabels exPickProps = Some [''A'', ''B'']" "columnLabels exPickProps = Some [''1'', ''2'']"
    by (simp_all add: exPickProps_def exProps_def)
  have f: "\<lfloor>(130::real) / 110\<rfloor> = 1" "\<lfloor>(5::real) / 110\<rfloor> = 0" "\<lfloor>- (5::real) / 110\<rfloor> = - 1"
    "\<lfloor>(230::real) / 110\<rfloor> = 2"
    by (simp_all add: floor_eq_iff)
  have l: "labelAt (Some [''A'', ''B'']) (Fin 0) = Some ''A''"
    "labelAt (Some [''1'', ''2'']) (Fin 1) = Some ''2''"
    by (simp_all add: labelAt_def)
  show ?thesis
    using getPickingInfo_grid_annotation [OF c [of 130 5] sp d(1) d(2)]
      getPickingInfo_grid_annotation [OF c [of "- 5" 5] sp d(1) d(2)]
      getPickingInfo_grid_annotation [OF c [of 130 230] sp d(1) d(2)]
      getPickingInfo_grid_annotation [OF c [of 130 5] sp d(3) d(4)]
      getPickingInfo_grid_annotation [OF c [of 130 5] spc dc(1) dc(2)]
    by (simp add: st pr f l)
qed

end
